theory Spec2Isabelle
  imports Complex_Main "HOL-Library.Sublist"
begin

section \<open>extract\_utterances\_from\_wavs.py: the data\<close>

text \<open>
  The script reads a word list, walks over the transcripts (tsv) of a directory and, for
  every transcript row whose text contains a target word, copies the matching span of the
  transcript's wav into a numbered clip and writes one row of metadata.

  Conventions of the embedding.
  \<^item> A Python float is the real number it stands for, and an operation on floats is
    the exact operation followed by \<open>double\<close>, the rounding to the nearest IEEE
    double (ties to even): \<open>float(x)/1000\<close>, \<open>start_time-0.2\<close>, \<open>end_time+0.2\<close> and
    \<open>fps * start_time\<close> are \<open>fdiv\<close>, \<open>fsub\<close>, \<open>fadd\<close> and \<open>fmul\<close>, and the
    literal \<open>0.2\<close> is the double nearest to 1/5. Overflow, subnormal numbers, \<open>inf\<close>
    and \<open>nan\<close> are not modelled.
  \<^item> A waveform is its format parameters and its list of frames. A value of type
    \<open>wav\<close> stands for a file that \<open>wave.open\<close> reads and whose parameters the
    writer's \<open>setparams\<close> takes back. A name with no such file (absent, or
    refused by the wave module) is \<open>None\<close> in the directory.
  \<^item> \<open>float\<close> of a cell is a finite number or fails. Paths are joined with \<open>/\<close>.
  \<^item> An exception is a value: every stateful function returns an \<open>outcome\<close>, either
    \<open>Done\<close> with the new state or \<open>Raised\<close> with the exception and the state
    reached when it was raised (what is left on disk when the run stops).
\<close>

type_synonym frame = nat

record wav =
  nchannels :: nat
  sampwidth :: nat
  framerate :: nat
  frames :: "frame list"

text \<open>The six cells \<open>writer.writerow\<close> gets, named after the columns of the header
  row \<open>Identifier, Parent WAV, Word, Start Time, End Time, Text\<close>.\<close>

record metadata_row =
  row_identifier :: string
  row_parent_wav :: string
  row_word :: string
  row_start_time :: real
  row_end_time :: real
  row_text :: string

text \<open>One transcript of the list \<open>tsvs\<close>: the stem of its file name and the rows the
  csv reader yields for it, the header row first.\<close>

record tsv_file =
  stem :: string
  tsv_rows :: "string list list"

text \<open>
  What the script is given: the word list \<open>STRINGS\<close>, the path \<open>AUDIO_EXCERPTS\<close>,
  the wav files of \<open>PATH_TO_WAVS\<close> by name, the transcripts found there in the order of
  \<open>iterdir\<close>, and what is in the excerpt directory before the run. The builtin
  \<open>float\<close> applied to a cell is the parameter \<open>py_float\<close>: \<open>None\<close> where it raises
  ValueError.
\<close>

record env =
  STRINGS :: "string list"
  AUDIO_EXCERPTS :: string
  wav_files :: "string \<rightharpoonup> wav"
  tsvs :: "tsv_file list"
  old_excerpts :: "string \<rightharpoonup> wav"
  py_float :: "string \<Rightarrow> real option"

datatype error = FileNotFoundError | Wave_Error | ValueError | IndexError | StopIteration

text \<open>A call of \<open>extract_audio\<close>: source file, start time, end time, destination.\<close>

type_synonym call = "string \<times> real \<times> real \<times> string"

text \<open>
  The state of a run: the rows the open csv reader has not yielded yet, the counter
  \<open>unique_id\<close>, the data rows written to output.tsv so far (after its header), and
  the files of the excerpt directory. \<open>calls\<close> and \<open>extracted\<close> are history
  variables, not variables of the script: the calls of \<open>extract_audio\<close> made so far,
  and the destinations of those that returned, one for each extraction that succeeded.
\<close>

record state =
  reader :: "string list list"
  unique_id :: nat
  output_tsv :: "metadata_row list"
  audio_excerpts :: "string \<rightharpoonup> wav"
  calls :: "call list"
  extracted :: "string list"

datatype outcome = Done state | Raised error state

fun final :: "outcome \<Rightarrow> state" where
  "final (Done s) = s"
| "final (Raised e s) = s"

fun completed :: "outcome \<Rightarrow> bool" where
  "completed (Done s) = True"
| "completed (Raised e s) = False"

section \<open>Builtins and the wave module\<close>

text \<open>\<open>int(x)\<close> of a float: truncation towards zero.\<close>

definition py_int :: "real \<Rightarrow> int" where
  "py_int x = (if 0 \<le> x then \<lfloor>x\<rfloor> else \<lceil>x\<rceil>)"

text \<open>
  The doubles. A real \<open>x \<noteq> 0\<close> lies in one binade, \<open>2^e \<le> |x| < 2^(e+1)\<close> with
  \<open>e = expo x\<close>; there the doubles are the multiples of \<open>2^(e-52)\<close>, and \<open>double x\<close>
  is the nearest of them, the one with the even multiplier when two are equally near.
  \<open>bits n\<close> is the number of binary digits of \<open>n\<close>.
\<close>

fun bits :: "nat \<Rightarrow> nat" where
  "bits n = (if n = 0 then 0 else Suc (bits (n div 2)))"

declare bits.simps [simp del]

definition pow2 :: "int \<Rightarrow> real" where
  "pow2 e = (if 0 \<le> e then 2 ^ nat e else 1 / 2 ^ nat (- e))"

definition expo :: "real \<Rightarrow> int" where
  "expo x =
     (if 1 \<le> \<bar>x\<bar> then int (bits (nat \<lfloor>\<bar>x\<bar>\<rfloor>)) - 1
      else - int (bits (nat (\<lceil>1 / \<bar>x\<bar>\<rceil> - 1))))"

definition round_even :: "real \<Rightarrow> int" where
  "round_even r =
     (let n = \<lfloor>r\<rfloor>; d = r - of_int n
      in if d < 1/2 then n else if 1/2 < d then n + 1 else if even n then n else n + 1)"

definition double :: "real \<Rightarrow> real" where
  "double x =
     (if x = 0 then 0
      else let e = expo x - 52
           in sgn x * of_int (round_even (\<bar>x\<bar> / pow2 e)) * pow2 e)"

text \<open>The operations of the script on floats, and its literal \<open>0.2\<close>.\<close>

definition fadd :: "real \<Rightarrow> real \<Rightarrow> real" where
  "fadd a b = double (a + b)"

definition fsub :: "real \<Rightarrow> real \<Rightarrow> real" where
  "fsub a b = double (a - b)"

definition fmul :: "real \<Rightarrow> real \<Rightarrow> real" where
  "fmul a b = double (a * b)"

definition fdiv :: "real \<Rightarrow> real \<Rightarrow> real" where
  "fdiv a b = double (a / b)"

definition py_0_2 :: real where
  "py_0_2 = double (1/5)"

text \<open>The equations that evaluate floats on numerals.\<close>

lemmas float_simps =
  double_def expo_def round_even_def pow2_def bits.simps fadd_def fsub_def fmul_def fdiv_def
  py_0_2_def Let_def

text \<open>
  That \<open>double\<close> is the rounding to the nearest double: \<open>expo x\<close> is the binade of
  \<open>x\<close>, \<open>double x\<close> is a multiple of \<open>2^(expo x - 52)\<close> by definition, no other
  multiple is nearer to \<open>x\<close>, and the relative error is at most \<open>2^-53\<close>.
\<close>

lemma bits_bounds: "0 < n \<Longrightarrow> 2 ^ (bits n - 1) \<le> n \<and> n < 2 ^ bits n"
proof (induction n rule: bits.induct)
  case (1 n)
  show ?case
  proof (cases "n div 2 = 0")
    case True
    with "1.prems" have n1: "n = Suc 0" by auto
    have b0: "bits 0 = 0" by (simp add: bits.simps [of 0])
    have "bits (Suc 0) = Suc 0" by (simp add: bits.simps [of "Suc 0"] b0)
    with n1 show ?thesis by simp
  next
    case False
    then have pos: "0 < n div 2" by simp
    from "1.prems" have n0: "n \<noteq> 0" by simp
    from "1.IH" [OF n0 pos]
    have lo: "2 ^ (bits (n div 2) - 1) \<le> n div 2" and hi: "n div 2 < 2 ^ bits (n div 2)"
      by simp_all
    have b: "bits n = Suc (bits (n div 2))" using n0 by (simp add: bits.simps [of n])
    have bp: "0 < bits (n div 2)" using pos by (simp add: bits.simps [of "n div 2"])
    then have "(2::nat) ^ bits (n div 2) = 2 * 2 ^ (bits (n div 2) - 1)"
      by (cases "bits (n div 2)") simp_all
    with lo have "(2::nat) ^ bits (n div 2) \<le> 2 * (n div 2)" by simp
    also have "\<dots> \<le> n" by simp
    finally have l: "2 ^ (bits n - 1) \<le> n" using b by simp
    from hi have "n < 2 * 2 ^ bits (n div 2)" by linarith
    with l b show ?thesis by simp
  qed
qed

lemma pow2_pos: "0 < pow2 e"
  by (simp add: pow2_def)

lemma pow2_nat: "pow2 (int k) = 2 ^ k"
  by (simp add: pow2_def)

lemma pow2_neg: "pow2 (- int k) = 1 / 2 ^ k"
proof (cases k)
  case 0
  then show ?thesis by (simp add: pow2_def)
next
  case (Suc j)
  then have "\<not> 0 \<le> - int k" by simp
  moreover have "nat (- (- int k)) = k" by simp
  ultimately show ?thesis by (simp only: pow2_def if_False)
qed

lemma pow2_Suc: "pow2 (e + 1) = 2 * pow2 e"
proof (cases "0 \<le> e")
  case True
  then show ?thesis by (simp add: pow2_def nat_add_distrib)
next
  case False
  show ?thesis
  proof (cases "e = - 1")
    case True
    then show ?thesis by (simp add: pow2_def)
  next
    case ne: False
    with False have "e + 1 < 0" by simp
    moreover from False have "nat (- e) = Suc (nat (- (e + 1)))" by simp
    ultimately show ?thesis using False by (simp add: pow2_def)
  qed
qed

lemma expo_bounds:
  assumes "x \<noteq> 0"
  shows "pow2 (expo x) \<le> \<bar>x\<bar> \<and> \<bar>x\<bar> < pow2 (expo x + 1)"
proof (cases "1 \<le> \<bar>x\<bar>")
  case True
  let ?n = "nat \<lfloor>\<bar>x\<bar>\<rfloor>"
  from True have n: "0 < ?n" by simp
  from bits_bounds [OF n] have lo: "2 ^ (bits ?n - 1) \<le> ?n" and hi: "?n < 2 ^ bits ?n"
    by simp_all
  from n have bp: "0 < bits ?n" by (simp add: bits.simps [of ?n])
  have e: "expo x = int (bits ?n - 1)" using True bp by (simp add: expo_def)
  have "real ?n \<le> \<bar>x\<bar>" using True by (simp add: of_nat_floor)
  moreover from lo have "(2::real) ^ (bits ?n - 1) \<le> real ?n"
    by (metis of_nat_le_iff of_nat_numeral of_nat_power)
  ultimately have l: "pow2 (expo x) \<le> \<bar>x\<bar>" unfolding e pow2_nat by linarith
  have "\<bar>x\<bar> < real ?n + 1" using True by linarith
  moreover from hi have "real ?n + 1 \<le> 2 ^ bits ?n"
    by (metis Suc_leI of_nat_Suc of_nat_le_iff of_nat_numeral of_nat_power add.commute plus_1_eq_Suc)
  ultimately have "\<bar>x\<bar> < 2 ^ bits ?n" by linarith
  moreover have "expo x + 1 = int (bits ?n)" using e bp by simp
  ultimately have "\<bar>x\<bar> < pow2 (expo x + 1)" by (simp only: pow2_nat)
  with l show ?thesis by simp
next
  case False
  let ?y = "1 / \<bar>x\<bar>"
  let ?n = "nat (\<lceil>?y\<rceil> - 1)"
  from False assms have y1: "1 < ?y" by simp
  then have c2: "2 \<le> \<lceil>?y\<rceil>" by linarith
  then have n: "0 < ?n" by simp
  from bits_bounds [OF n] have lo: "2 ^ (bits ?n - 1) \<le> ?n" and hi: "?n < 2 ^ bits ?n"
    by simp_all
  from n have bp: "0 < bits ?n" by (simp add: bits.simps [of ?n])
  have e: "expo x = - int (bits ?n)" using False by (simp add: expo_def)
  have xpos: "0 < \<bar>x\<bar>" using assms by simp
  have yn: "?y \<le> real ?n + 1" and ny: "real ?n < ?y"
    using c2 by linarith+
  from hi have "real ?n + 1 \<le> 2 ^ bits ?n"
    by (metis Suc_leI of_nat_Suc of_nat_le_iff of_nat_numeral of_nat_power add.commute plus_1_eq_Suc)
  with yn have "?y \<le> 2 ^ bits ?n" by linarith
  then have "1 \<le> 2 ^ bits ?n * \<bar>x\<bar>" using xpos by (simp add: field_simps)
  then have l: "pow2 (expo x) \<le> \<bar>x\<bar>"
    unfolding e using bp by (simp add: pow2_def field_simps)
  from lo have "(2::real) ^ (bits ?n - 1) \<le> real ?n"
    by (metis of_nat_le_iff of_nat_numeral of_nat_power)
  with ny have "2 ^ (bits ?n - 1) < ?y" by linarith
  then have u: "2 ^ (bits ?n - 1) * \<bar>x\<bar> < 1" using xpos by (simp add: field_simps)
  have "expo x + 1 = - int (bits ?n - 1)" using e bp by simp
  moreover have "\<bar>x\<bar> < pow2 (- int (bits ?n - 1))"
    unfolding pow2_neg using u by (simp add: field_simps)
  ultimately have "\<bar>x\<bar> < pow2 (expo x + 1)" by simp
  with l show ?thesis by simp
qed

lemma round_even_error: "\<bar>of_int (round_even r) - r\<bar> \<le> 1/2"
proof -
  have "of_int \<lfloor>r\<rfloor> \<le> r" "r < of_int \<lfloor>r\<rfloor> + 1" by linarith+
  then show ?thesis by (auto simp: round_even_def Let_def)
qed

lemma double_error:
  assumes "x \<noteq> 0"
  shows "\<bar>double x - x\<bar> \<le> pow2 (expo x - 52) / 2"
proof -
  let ?e = "expo x - 52"
  let ?m = "\<bar>x\<bar> / pow2 ?e"
  have p: "0 < pow2 ?e" by (rule pow2_pos)
  have d: "double x = sgn x * of_int (round_even ?m) * pow2 ?e"
    using assms by (simp add: double_def Let_def)
  have mp: "?m * pow2 ?e = \<bar>x\<bar>" using p by simp
  have "sgn x * ?m * pow2 ?e = sgn x * (?m * pow2 ?e)" by (simp only: mult.assoc)
  also have "\<dots> = sgn x * \<bar>x\<bar>" by (simp only: mp)
  also have "\<dots> = x" by (simp add: sgn_real_def)
  finally have x: "x = sgn x * ?m * pow2 ?e" by (rule sym)
  have "sgn x * (of_int (round_even ?m) - ?m) * pow2 ?e =
      sgn x * of_int (round_even ?m) * pow2 ?e - sgn x * ?m * pow2 ?e"
    by (simp only: left_diff_distrib right_diff_distrib)
  also have "\<dots> = double x - x"
    by (simp only: d [symmetric] x [symmetric])
  finally have "double x - x = sgn x * (of_int (round_even ?m) - ?m) * pow2 ?e"
    by (rule sym)
  then have "\<bar>double x - x\<bar> = \<bar>of_int (round_even ?m) - ?m\<bar> * pow2 ?e"
    using assms p by (simp add: abs_mult)
  also have "\<dots> \<le> 1/2 * pow2 ?e"
    using round_even_error [of ?m] p by (intro mult_right_mono) simp_all
  finally show ?thesis by simp
qed

lemma double_relative_error:
  assumes "x \<noteq> 0"
  shows "\<bar>double x - x\<bar> \<le> \<bar>x\<bar> / 2 ^ 53"
proof -
  have "pow2 (expo x - 52) * 2 ^ 52 = pow2 (expo x)"
  proof -
    have "pow2 (e + int k) = pow2 e * 2 ^ k" for e k
    proof (induction k)
      case 0
      show ?case by simp
    next
      case (Suc k)
      have "e + int (Suc k) = (e + int k) + 1" by simp
      then have "pow2 (e + int (Suc k)) = pow2 ((e + int k) + 1)" by (rule arg_cong)
      also have "\<dots> = 2 * pow2 (e + int k)" by (rule pow2_Suc)
      finally show ?case using Suc by simp
    qed
    from this [of "expo x - 52" 52] show ?thesis by simp
  qed
  then have "pow2 (expo x - 52) = pow2 (expo x) / 2 ^ 52" by (simp add: field_simps)
  with double_error [OF assms] have "\<bar>double x - x\<bar> \<le> pow2 (expo x) / 2 ^ 53" by simp
  also have "\<dots> \<le> \<bar>x\<bar> / 2 ^ 53"
    using expo_bounds [OF assms] by (simp add: divide_right_mono)
  finally show ?thesis .
qed

lemma round_even_nearest: "\<bar>of_int (round_even r) - r\<bar> \<le> \<bar>of_int k - r\<bar>"
proof -
  have fl: "of_int \<lfloor>r\<rfloor> \<le> r" "r < of_int \<lfloor>r\<rfloor> + 1" by linarith+
  consider "k \<le> \<lfloor>r\<rfloor>" | "\<lfloor>r\<rfloor> + 1 \<le> k" by linarith
  then show ?thesis
  proof cases
    case 1
    then have "(of_int k :: real) \<le> of_int \<lfloor>r\<rfloor>" by simp
    with fl show ?thesis by (auto simp: round_even_def Let_def)
  next
    case 2
    then have "(of_int \<lfloor>r\<rfloor> :: real) + 1 \<le> of_int k"
      by (metis of_int_1 of_int_add of_int_le_iff)
    with fl show ?thesis by (auto simp: round_even_def Let_def)
  qed
qed

lemma double_nearest:
  assumes "x \<noteq> 0"
  shows "\<bar>double x - x\<bar> \<le> \<bar>of_int k * pow2 (expo x - 52) - x\<bar>"
proof -
  let ?e = "expo x - 52"
  let ?m = "\<bar>x\<bar> / pow2 ?e"
  let ?j = "if 0 \<le> x then k else - k"
  have p: "0 < pow2 ?e" by (rule pow2_pos)
  have d: "double x = sgn x * of_int (round_even ?m) * pow2 ?e"
    using assms by (simp add: double_def Let_def)
  have mp: "?m * pow2 ?e = \<bar>x\<bar>" using p by simp
  have sx: "sgn x * \<bar>x\<bar> = x" by (simp add: sgn_real_def)
  have diff: "sgn x * of_int i * pow2 ?e - x = sgn x * ((of_int i - ?m) * pow2 ?e)" for i
  proof -
    have "sgn x * ((of_int i - ?m) * pow2 ?e) =
        sgn x * of_int i * pow2 ?e - sgn x * (?m * pow2 ?e)"
      by (simp only: left_diff_distrib right_diff_distrib mult.assoc)
    also have "\<dots> = sgn x * of_int i * pow2 ?e - x" by (simp only: mp sx)
    finally show ?thesis by (rule sym)
  qed
  have ab: "\<bar>sgn x * of_int i * pow2 ?e - x\<bar> = \<bar>of_int i - ?m\<bar> * pow2 ?e" for i
    unfolding diff using assms p by (simp add: abs_mult)
  have kj: "of_int k * pow2 ?e = sgn x * of_int ?j * pow2 ?e"
    using assms by (simp add: sgn_real_def)
  have "\<bar>double x - x\<bar> = \<bar>of_int (round_even ?m) - ?m\<bar> * pow2 ?e"
    unfolding d by (rule ab)
  also have "\<dots> \<le> \<bar>of_int ?j - ?m\<bar> * pow2 ?e"
    using round_even_nearest [of ?m ?j] p by (intro mult_right_mono) simp_all
  also have "\<dots> = \<bar>of_int k * pow2 ?e - x\<bar>"
    unfolding kj by (rule ab [symmetric])
  finally show ?thesis .
qed

text \<open>The literal \<open>0.2\<close>; and a float below \<open>2^50\<close> is moved when 0.2 is
  subtracted from it or added to it.\<close>

lemma py_0_2_value: "py_0_2 = 3602879701896397 / 18014398509481984"
  by (simp add: float_simps)

lemma padding_moves:
  assumes "\<bar>a\<bar> < 2 ^ 50"
  shows "fsub a py_0_2 \<noteq> a \<and> fadd a py_0_2 \<noteq> a"
proof -
  have c0: "0 < py_0_2" and c1: "py_0_2 < 1" and c2: "(2 ^ 50 + 1) / 2 ^ 53 < py_0_2"
    by (simp_all add: py_0_2_value)
  have moved: "double y \<noteq> a" if y: "\<bar>y - a\<bar> = py_0_2" for y
  proof (cases "y = 0")
    case True
    with y c0 have "a \<noteq> 0" by auto
    with True show ?thesis by (simp add: double_def)
  next
    case False
    from y assms c1 have "\<bar>y\<bar> < 2 ^ 50 + 1" by linarith
    then have "\<bar>y\<bar> / 2 ^ 53 < (2 ^ 50 + 1) / 2 ^ 53"
      by (simp add: divide_strict_right_mono)
    with c2 double_relative_error [OF False] y have "\<bar>double y - y\<bar> < \<bar>y - a\<bar>"
      by linarith
    then show ?thesis by auto
  qed
  have m: "\<bar>(a - py_0_2) - a\<bar> = py_0_2" and p: "\<bar>(a + py_0_2) - a\<bar> = py_0_2"
    using c0 by simp_all
  from moved [OF m] moved [OF p] show ?thesis
    by (simp add: fsub_def fadd_def)
qed

text \<open>\<open>str.lower\<close>, on ASCII letters.\<close>

definition lower_char :: "char \<Rightarrow> char" where
  "lower_char c =
     (case map_of (zip ''ABCDEFGHIJKLMNOPQRSTUVWXYZ'' ''abcdefghijklmnopqrstuvwxyz'') c of
        None \<Rightarrow> c
      | Some l \<Rightarrow> l)"

definition lower :: "string \<Rightarrow> string" where
  "lower t = map lower_char t"

text \<open>\<open>word in text\<close> on strings: \<open>word\<close> occurs in \<open>text\<close> as a contiguous
  substring; the empty word occurs in every text.\<close>

fun starts_with :: "string \<Rightarrow> string \<Rightarrow> bool" where
  "starts_with [] t = True"
| "starts_with (c # w) [] = False"
| "starts_with (c # w) (d # t) = (c = d \<and> starts_with w t)"

fun str_in :: "string \<Rightarrow> string \<Rightarrow> bool" where
  "str_in w [] = (w = [])"
| "str_in w (d # t) = (starts_with w (d # t) \<or> str_in w t)"

text \<open>These are the prefix and the contiguous sublist of the list library.\<close>

lemma starts_with_prefix: "starts_with w t = prefix w t"
  by (induction w t rule: starts_with.induct) simp_all

lemma str_in_sublist: "str_in w t = sublist w t"
proof (induction t)
  case Nil
  show ?case by simp
next
  case (Cons d t)
  then show ?case by (simp add: starts_with_prefix sublist_Cons_right)
qed

text \<open>The f-string \<open>{unique_id}\<close>: the decimal digits of the counter.\<close>

definition digit_char :: "nat \<Rightarrow> char" where
  "digit_char d = ''0123456789'' ! d"

fun str_nat :: "nat \<Rightarrow> string" where
  "str_nat n = (if n < 10 then [digit_char n] else str_nat (n div 10) @ [digit_char (n mod 10)])"

declare str_nat.simps [simp del]

text \<open>
  \<open>Wave_read.setpos(pos)\<close> raises \<open>wave.Error\<close> when \<open>pos < 0\<close> or
  \<open>pos > nframes\<close>, and moves the read position otherwise.
\<close>

definition setpos :: "wav \<Rightarrow> int \<Rightarrow> error + int" where
  "setpos w pos =
     (if pos < 0 \<or> pos > int (length (frames w)) then Inl Wave_Error else Inr pos)"

text \<open>
  \<open>Wave_read.readframes(n)\<close> at read position \<open>pos\<close>: nothing for \<open>n = 0\<close>;
  otherwise it reads \<open>n\<close> frames' bytes from the data chunk, and the chunk's \<open>read\<close>
  takes a negative size as "to the end of the chunk" and cuts a size beyond the end
  down to what is left. It never raises.
\<close>

definition readframes :: "wav \<Rightarrow> int \<Rightarrow> int \<Rightarrow> frame list" where
  "readframes w pos n =
     (if n = 0 then []
      else if n < 0 then drop (nat pos) (frames w)
      else take (nat n) (drop (nat pos) (frames w)))"

section \<open>The script\<close>

text \<open>\<open>int(fps * start_time)\<close> and \<open>int(fps * end_time)\<close>: the frame rate, an integer,
  becomes a float, the product is a float, and \<open>int\<close> cuts its fraction off.\<close>

definition to_frame :: "nat \<Rightarrow> real \<Rightarrow> int" where
  "to_frame fps t = py_int (fmul (double (of_nat fps)) t)"

text \<open>
  \<open>extract_audio(source_file, start_time, end_time, dest_file)\<close>. Opening the source
  fails when there is no such wav; \<open>setpos\<close> may raise; then the frames read are
  written to the destination with the parameters of the source.
\<close>

definition extract_audio :: "env \<Rightarrow> string \<Rightarrow> real \<Rightarrow> real \<Rightarrow> string \<Rightarrow> state \<Rightarrow> outcome" where
  "extract_audio E source_file start_time end_time dest_file s0 =
     (let s = s0\<lparr>calls := calls s0 @ [(source_file, start_time, end_time, dest_file)]\<rparr> in
      case wav_files E source_file of
        None \<Rightarrow> Raised FileNotFoundError s
      | Some source_wav \<Rightarrow>
          let fps = framerate source_wav;
              start_frame = to_frame fps start_time;
              end_frame = to_frame fps end_time;
              n_frames = end_frame - start_frame
          in case setpos source_wav start_frame of
               Inl e \<Rightarrow> Raised e s
             | Inr pos \<Rightarrow>
                 let chunk_data = readframes source_wav pos n_frames;
                     dest_wav = source_wav\<lparr>frames := chunk_data\<rparr>
                 in Done (s\<lparr>audio_excerpts := (audio_excerpts s)(dest_file \<mapsto> dest_wav),
                            extracted := extracted s @ [dest_file]\<rparr>))"

text \<open>\<open>os.path.join(AUDIO_EXCERPTS, f"chunk_{unique_id}.wav")\<close>.\<close>

definition dest_wav_filename :: "env \<Rightarrow> nat \<Rightarrow> string" where
  "dest_wav_filename E i = AUDIO_EXCERPTS E @ ''/chunk_'' @ str_nat i @ ''.wav''"

text \<open>
  The body of \<open>if word in text.lower():\<close> in \<open>search_tsv\<close>: the padded call inside
  \<open>try\<close>, the call with the original times in the bare \<open>except\<close>, then the metadata
  row and the increment of the counter.
\<close>

definition write_row :: "string \<Rightarrow> string \<Rightarrow> string \<Rightarrow> real \<Rightarrow> real \<Rightarrow> string \<Rightarrow> state \<Rightarrow> state" where
  "write_row dest wav_filename word start_time end_time text s =
     s\<lparr>output_tsv := output_tsv s @
          [\<lparr>row_identifier = dest, row_parent_wav = wav_filename, row_word = word,
            row_start_time = start_time, row_end_time = end_time, row_text = text\<rparr>],
       unique_id := unique_id s + 1\<rparr>"

definition extract_match :: "env \<Rightarrow> string \<Rightarrow> string \<Rightarrow> real \<Rightarrow> real \<Rightarrow> string \<Rightarrow> state \<Rightarrow> outcome" where
  "extract_match E wav_filename word start_time end_time text s =
     (let dest = dest_wav_filename E (unique_id s) in
      case extract_audio E wav_filename (fsub start_time py_0_2) (fadd end_time py_0_2) dest s of
        Done s1 \<Rightarrow> Done (write_row dest wav_filename word start_time end_time text s1)
      | Raised e1 s1 \<Rightarrow>
          (case extract_audio E wav_filename start_time end_time dest s1 of
             Done s2 \<Rightarrow> Done (write_row dest wav_filename word start_time end_time text s2)
           | Raised e2 s2 \<Rightarrow> Raised e2 s2))"

text \<open>\<open>for word in STRINGS:\<close> for one row.\<close>

fun search_words :: "env \<Rightarrow> string \<Rightarrow> real \<Rightarrow> real \<Rightarrow> string \<Rightarrow> string list \<Rightarrow> state \<Rightarrow> outcome" where
  "search_words E wav_filename start_time end_time text [] s = Done s"
| "search_words E wav_filename start_time end_time text (word # ws) s =
     (if str_in word (lower text)
      then (case extract_match E wav_filename word start_time end_time text s of
              Done s' \<Rightarrow> search_words E wav_filename start_time end_time text ws s'
            | Raised e s' \<Rightarrow> Raised e s')
      else search_words E wav_filename start_time end_time text ws s)"

text \<open>
  \<open>start_time, end_time, text = float(row[0])/1000, float(row[1])/1000, row[2]\<close>, in
  the order Python evaluates it: an index out of range raises IndexError, a cell that
  is no number ValueError.
\<close>

definition read_row :: "env \<Rightarrow> string list \<Rightarrow> error + (real \<times> real \<times> string)" where
  "read_row E row =
     (case row of
        [] \<Rightarrow> Inl IndexError
      | c0 # r1 \<Rightarrow>
          (case py_float E c0 of
             None \<Rightarrow> Inl ValueError
           | Some a \<Rightarrow>
               (case r1 of
                  [] \<Rightarrow> Inl IndexError
                | c1 # r2 \<Rightarrow>
                    (case py_float E c1 of
                       None \<Rightarrow> Inl ValueError
                     | Some b \<Rightarrow>
                         (case r2 of
                            [] \<Rightarrow> Inl IndexError
                          | c2 # r3 \<Rightarrow> Inr (fdiv a 1000, fdiv b 1000, c2))))))"

text \<open>The body of \<open>for row in reader:\<close> in \<open>search_tsv\<close>, for the row just
  yielded.\<close>

definition search_row :: "env \<Rightarrow> string \<Rightarrow> string list \<Rightarrow> state \<Rightarrow> outcome" where
  "search_row E wav_filename row s =
     (case read_row E row of
        Inl e \<Rightarrow> Raised e s
      | Inr (start_time, end_time, text) \<Rightarrow>
          search_words E wav_filename start_time end_time text (STRINGS E) s)"

text \<open>None of this touches the csv reader: only a \<open>for\<close> loop advances it.\<close>

lemma reader_extract_audio:
  "reader (final (extract_audio E f a b d s)) = reader s"
  by (simp add: extract_audio_def Let_def split: option.splits sum.splits)

lemma reader_extract_match:
  "reader (final (extract_match E f w a b t s)) = reader s"
proof -
  let ?d = "dest_wav_filename E (unique_id s)"
  let ?o1 = "extract_audio E f (fsub a py_0_2) (fadd b py_0_2) ?d s"
  show ?thesis
  proof (cases ?o1)
    case (Done s1)
    from reader_extract_audio [of E f "fsub a py_0_2" "fadd b py_0_2" ?d s] Done
    have "reader s1 = reader s" by simp
    then show ?thesis using Done by (simp add: extract_match_def write_row_def)
  next
    case (Raised e1 s1)
    from reader_extract_audio [of E f "fsub a py_0_2" "fadd b py_0_2" ?d s] Raised
    have r1: "reader s1 = reader s" by simp
    let ?o2 = "extract_audio E f a b ?d s1"
    show ?thesis
    proof (cases ?o2)
      case (Done s2)
      from reader_extract_audio [of E f a b ?d s1] Done
      have "reader s2 = reader s1" by simp
      then show ?thesis using Done Raised r1 by (simp add: extract_match_def write_row_def)
    next
      case Raised2: (Raised e2 s2)
      from reader_extract_audio [of E f a b ?d s1] Raised2
      have "reader s2 = reader s1" by simp
      then show ?thesis using Raised2 Raised r1 by (simp add: extract_match_def)
    qed
  qed
qed

lemma reader_search_words:
  "reader (final (search_words E f a b t ws s)) = reader s"
proof (induction ws arbitrary: s)
  case Nil
  show ?case by simp
next
  case (Cons w ws)
  show ?case
  proof (cases "str_in w (lower t)")
    case False
    then show ?thesis using Cons.IH by simp
  next
    case True
    show ?thesis
    proof (cases "extract_match E f w a b t s")
      case (Done s')
      from reader_extract_match [of E f w a b t s] Done
      have "reader s' = reader s" by simp
      with True Done Cons.IH [of s'] show ?thesis by simp
    next
      case (Raised e s')
      from reader_extract_match [of E f w a b t s] Raised
      have "reader s' = reader s" by simp
      with True Raised show ?thesis by simp
    qed
  qed
qed

lemma reader_search_row:
  "reader (final (search_row E f row s)) = reader s"
  by (simp add: search_row_def reader_search_words split: sum.splits prod.splits)

text \<open>
  \<open>search_tsv(reader, wav_filename, unique_id)\<close>: \<open>for row in reader:\<close> takes the
  next row from the reader until there is none. The counter it returns is the
  \<open>unique_id\<close> of the state it returns.
\<close>

function search_tsv :: "env \<Rightarrow> string \<Rightarrow> state \<Rightarrow> outcome" where
  "search_tsv E wav_filename s =
     (case reader s of
        [] \<Rightarrow> Done s
      | row # rest \<Rightarrow>
          (case search_row E wav_filename row (s\<lparr>reader := rest\<rparr>) of
             Done s' \<Rightarrow> search_tsv E wav_filename s'
           | Raised e s' \<Rightarrow> Raised e s'))"
  by pat_completeness auto
termination
proof (relation "measure (\<lambda>(E, wav_filename, s). length (reader s))")
  show "wf (measure (\<lambda>(E, wav_filename, s). length (reader s)))" by simp
next
  fix E :: env and wav_filename s row rest s'
  assume rd: "reader s = row # rest"
    and sr: "search_row E wav_filename row (s\<lparr>reader := rest\<rparr>) = Done s'"
  from reader_search_row [of E wav_filename row "s\<lparr>reader := rest\<rparr>"] sr
  have "reader s' = rest" by simp
  with rd show "((E, wav_filename, s'), (E, wav_filename, s))
      \<in> measure (\<lambda>(E, wav_filename, s). length (reader s))"
    by simp
qed

declare search_tsv.simps [simp del]

lemma search_tsv_Nil: "reader s = [] \<Longrightarrow> search_tsv E f s = Done s"
  by (simp add: search_tsv.simps [of E f s])

lemma search_tsv_Cons:
  "reader s = row # rest \<Longrightarrow>
   search_tsv E f s =
     (case search_row E f row (s\<lparr>reader := rest\<rparr>) of
        Done s' \<Rightarrow> search_tsv E f s'
      | Raised e s' \<Rightarrow> Raised e s')"
  by (simp add: search_tsv.simps [of E f s])

text \<open>A call of \<open>search_tsv\<close> that returns has drained the reader.\<close>

lemma reader_search_tsv: "search_tsv E f s = Done s' \<Longrightarrow> reader s' = []"
proof (induction E f s rule: search_tsv.induct)
  case (1 E f s)
  show ?case
  proof (cases "reader s")
    case Nil
    with "1.prems" show ?thesis by (simp add: search_tsv_Nil)
  next
    case (Cons row rest)
    show ?thesis
    proof (cases "search_row E f row (s\<lparr>reader := rest\<rparr>)")
      case (Done s1)
      with Cons "1.prems" have "search_tsv E f s1 = Done s'"
        by (simp add: search_tsv_Cons)
      with "1.IH" [OF Cons Done] show ?thesis by simp
    next
      case (Raised e s1)
      with Cons "1.prems" show ?thesis by (simp add: search_tsv_Cons)
    qed
  qed
qed

text \<open>
  The loop at the end of the script, for one open transcript:
  \<^verbatim>\<open>
            for row in reader: # Search each row in the reader.
                unique_id = search_tsv(reader, wav_filename, unique_id)
  \<close>
  The outer \<open>for\<close> takes a row from the reader and hands the same reader, not the
  row, to \<open>search_tsv\<close>.
\<close>

function main_rows :: "env \<Rightarrow> string \<Rightarrow> state \<Rightarrow> outcome" where
  "main_rows E wav_filename s =
     (case reader s of
        [] \<Rightarrow> Done s
      | row # rest \<Rightarrow>
          (case search_tsv E wav_filename (s\<lparr>reader := rest\<rparr>) of
             Done s' \<Rightarrow> main_rows E wav_filename s'
           | Raised e s' \<Rightarrow> Raised e s'))"
  by pat_completeness auto
termination
proof (relation "measure (\<lambda>(E, wav_filename, s). length (reader s))")
  show "wf (measure (\<lambda>(E, wav_filename, s). length (reader s)))" by simp
next
  fix E :: env and wav_filename s row rest s'
  assume rd: "reader s = row # rest"
    and st: "search_tsv E wav_filename (s\<lparr>reader := rest\<rparr>) = Done s'"
  from st have "reader s' = []" by (rule reader_search_tsv)
  with rd show "((E, wav_filename, s'), (E, wav_filename, s))
      \<in> measure (\<lambda>(E, wav_filename, s). length (reader s))"
    by simp
qed

declare main_rows.simps [simp del]

text \<open>
  \<open>for tsv_filename in tsvs:\<close>. The wav is looked for under the stem of the
  transcript plus \<open>.wav\<close>; the transcript is opened, \<open>next(reader)\<close> skips the
  header (StopIteration when the file has no row at all), and the rows are searched.
\<close>

fun main_files :: "env \<Rightarrow> tsv_file list \<Rightarrow> state \<Rightarrow> outcome" where
  "main_files E [] s = Done s"
| "main_files E (tsv_filename # others) s =
     (let wav_filename = stem tsv_filename @ ''.wav'' in
      case tsv_rows tsv_filename of
        [] \<Rightarrow> Raised StopIteration (s\<lparr>reader := []\<rparr>)
      | header # rest \<Rightarrow>
          (case main_rows E wav_filename (s\<lparr>reader := rest\<rparr>) of
             Done s' \<Rightarrow> main_files E others s'
           | Raised e s' \<Rightarrow> Raised e s'))"

text \<open>The run: output.tsv is opened anew, the header is written, the counter starts
  at 0, and every transcript of \<open>tsvs\<close> is processed.\<close>

definition initial :: "env \<Rightarrow> state" where
  "initial E =
     \<lparr>reader = [], unique_id = 0, output_tsv = [], audio_excerpts = old_excerpts E,
      calls = [], extracted = []\<rparr>"

definition main :: "env \<Rightarrow> outcome" where
  "main E = main_files E (tsvs E) (initial E)"

section \<open>Inputs of the examples\<close>

text \<open>
  \<open>float\<close> on a cell that is a run of decimal digits, the way Whisper writes its
  millisecond columns. The examples use it for \<open>py_float\<close>; any other cell counts as
  "not a number" there. The theorems hold for every \<open>py_float\<close>.
\<close>

definition digit_val :: "char \<Rightarrow> nat option" where
  "digit_val c = map_of (zip ''0123456789'' [0, 1, 2, 3, 4, 5, 6, 7, 8, 9]) c"

fun dec_nat :: "nat \<Rightarrow> string \<Rightarrow> nat option" where
  "dec_nat acc [] = Some acc"
| "dec_nat acc (c # cs) =
     (case digit_val c of None \<Rightarrow> None | Some d \<Rightarrow> dec_nat (10 * acc + d) cs)"

definition float_digits :: "string \<Rightarrow> real option" where
  "float_digits cs =
     (if cs = [] then None else map_option (\<lambda>n. double (of_nat n)) (dec_nat 0 cs))"

text \<open>A mono 16-bit wav of \<open>n\<close> frames of silence at \<open>fps\<close> frames per second.\<close>

definition silence :: "nat \<Rightarrow> nat \<Rightarrow> wav" where
  "silence fps n = \<lparr>nchannels = 1, sampwidth = 2, framerate = fps, frames = replicate n 0\<rparr>"

text \<open>A directory with one wav of five seconds at 8000 frames per second and no
  transcript.\<close>

definition one_wav :: env where
  "one_wav =
     \<lparr>STRINGS = [], AUDIO_EXCERPTS = ''/work/audio_excerpts'',
      wav_files = [''talk.wav'' \<mapsto> silence 8000 40000],
      tsvs = [], old_excerpts = Map.empty, py_float = float_digits\<rparr>"

section \<open>The slicer \<open>extract_audio\<close>\<close>

lemma extract_audio_None:
  "wav_files E f = None \<Longrightarrow>
   extract_audio E f a b d s =
     Raised FileNotFoundError (s\<lparr>calls := calls s @ [(f, a, b, d)]\<rparr>)"
  by (simp add: extract_audio_def)

lemma extract_audio_Some:
  "wav_files E f = Some w \<Longrightarrow>
   extract_audio E f a b d s =
     (if to_frame (framerate w) a < 0 \<or> int (length (frames w)) < to_frame (framerate w) a
      then Raised Wave_Error (s\<lparr>calls := calls s @ [(f, a, b, d)]\<rparr>)
      else Done (s\<lparr>calls := calls s @ [(f, a, b, d)],
                   audio_excerpts := (audio_excerpts s)(d \<mapsto>
                     w\<lparr>frames := readframes w (to_frame (framerate w) a)
                                   (to_frame (framerate w) b - to_frame (framerate w) a)\<rparr>),
                   extracted := extracted s @ [d]\<rparr>))"
  by (simp add: extract_audio_def setpos_def Let_def)

text \<open>
  Claim C10. A call of the slicer whose start frame lies within the source
  (\<open>0 \<le> start_frame \<le> nframes\<close>) and whose end frame lies beyond its last frame
  raises nothing: it returns, and the clip it writes holds the frames from the start
  frame to the end of the source and no more, which is fewer frames than the
  \<open>end_frame - start_frame\<close> asked for.
\<close>

theorem read_past_end_is_short_clip:
  assumes "wav_files E source_file = Some w"
    and "0 \<le> to_frame (framerate w) start_time"
    and "to_frame (framerate w) start_time \<le> int (length (frames w))"
    and "int (length (frames w)) < to_frame (framerate w) end_time"
  shows "\<exists>s'. extract_audio E source_file start_time end_time dest_file s = Done s' \<and>
           audio_excerpts s' dest_file =
             Some (w\<lparr>frames := drop (nat (to_frame (framerate w) start_time)) (frames w)\<rparr>) \<and>
           int (length (drop (nat (to_frame (framerate w) start_time)) (frames w))) =
             int (length (frames w)) - to_frame (framerate w) start_time \<and>
           int (length (drop (nat (to_frame (framerate w) start_time)) (frames w))) <
             to_frame (framerate w) end_time - to_frame (framerate w) start_time"
proof -
  let ?sf = "to_frame (framerate w) start_time"
  let ?ef = "to_frame (framerate w) end_time"
  have n: "0 < ?ef - ?sf" using assms by linarith
  have "length (drop (nat ?sf) (frames w)) \<le> nat (?ef - ?sf)"
    using assms by simp
  then have rf: "readframes w ?sf (?ef - ?sf) = drop (nat ?sf) (frames w)"
    using n by (simp add: readframes_def)
  have len: "int (length (drop (nat ?sf) (frames w))) = int (length (frames w)) - ?sf"
    using assms by simp
  show ?thesis
    using assms rf len by (simp add: extract_audio_Some)
qed

text \<open>Seconds 4 to 6 of the five-second wav: the clip is its last second, 8000 frames
  where 16000 were asked for.\<close>

theorem read_past_end_witness:
  "\<exists>s'. extract_audio one_wav ''talk.wav'' 4 6 ''clip.wav'' (initial one_wav) = Done s' \<and>
      audio_excerpts s' ''clip.wav'' = Some (silence 8000 8000) \<and>
      to_frame 8000 6 - to_frame 8000 4 = 16000"
proof -
  have w: "wav_files one_wav ''talk.wav'' = Some (silence 8000 40000)"
    by (simp add: one_wav_def)
  have sf: "to_frame (framerate (silence 8000 40000)) 4 = 32000"
    by (simp add: silence_def to_frame_def py_int_def float_simps)
  have ef: "to_frame (framerate (silence 8000 40000)) 6 = 48000"
    by (simp add: silence_def to_frame_def py_int_def float_simps)
  have len: "int (length (frames (silence 8000 40000))) = 40000"
    by (simp add: silence_def)
  have tf: "to_frame 8000 6 - to_frame 8000 4 = 16000"
    by (simp add: to_frame_def py_int_def float_simps)
  have cl: "silence 8000 40000\<lparr>frames := drop (nat 32000) (frames (silence 8000 40000))\<rparr>
      = silence 8000 8000"
    by (simp add: silence_def)
  from read_past_end_is_short_clip [of one_wav "''talk.wav''" "silence 8000 40000" 4 6
      "''clip.wav''" "initial one_wav"]
  show ?thesis
    unfolding sf ef len using w cl tf by auto
qed

lemma readframes_length:
  "0 \<le> pos \<Longrightarrow> pos \<le> int (length (frames w)) \<Longrightarrow>
   int (length (readframes w pos n)) =
     (if n < 0 then int (length (frames w)) - pos else min n (int (length (frames w)) - pos))"
  by (auto simp: readframes_def min_def)

text \<open>
  Claim C5, as the code has it. The claim lets the slicer fail on a frame count
  \<open>\<le> 0\<close> too and read exactly the frame count otherwise. The script checks nothing
  itself; of the wave module only \<open>setpos\<close> raises. For a source that opens, the
  slicer fails, with \<open>wave.Error\<close>, exactly when the start frame is negative or
  exceeds the total frame count. In every other case it returns and writes a clip:
  every frame from the start frame on when the frame count is negative, and otherwise
  the frame count or what is left of the source, whichever is less (no frame for a
  frame count of 0).
\<close>

theorem extract_audio_fails_iff:
  assumes "wav_files E source_file = Some w"
  shows "(\<exists>s'. extract_audio E source_file start_time end_time dest_file s = Raised Wave_Error s') =
           (to_frame (framerate w) start_time < 0 \<or>
            int (length (frames w)) < to_frame (framerate w) start_time) \<and>
         completed (extract_audio E source_file start_time end_time dest_file s) =
           (0 \<le> to_frame (framerate w) start_time \<and>
            to_frame (framerate w) start_time \<le> int (length (frames w))) \<and>
         (0 \<le> to_frame (framerate w) start_time \<and>
          to_frame (framerate w) start_time \<le> int (length (frames w)) \<longrightarrow>
            (\<exists>clip. audio_excerpts (final (extract_audio E source_file start_time end_time dest_file s))
                       dest_file = Some clip \<and>
               frames clip =
                 (if to_frame (framerate w) end_time - to_frame (framerate w) start_time < 0
                  then drop (nat (to_frame (framerate w) start_time)) (frames w)
                  else take (nat (to_frame (framerate w) end_time - to_frame (framerate w) start_time))
                         (drop (nat (to_frame (framerate w) start_time)) (frames w))) \<and>
               int (length (frames clip)) =
                 (if to_frame (framerate w) end_time - to_frame (framerate w) start_time < 0
                  then int (length (frames w)) - to_frame (framerate w) start_time
                  else min (to_frame (framerate w) end_time - to_frame (framerate w) start_time)
                           (int (length (frames w)) - to_frame (framerate w) start_time))))"
proof -
  let ?sf = "to_frame (framerate w) start_time"
  let ?ef = "to_frame (framerate w) end_time"
  let ?out = "extract_audio E source_file start_time end_time dest_file s"
  have fails: "(\<exists>s'. ?out = Raised Wave_Error s') = (?sf < 0 \<or> int (length (frames w)) < ?sf)"
    using assms by (simp add: extract_audio_Some)
  have returns: "completed ?out = (0 \<le> ?sf \<and> ?sf \<le> int (length (frames w)))"
    using assms by (auto simp: extract_audio_Some)
  have clip: "\<exists>clip. audio_excerpts (final ?out) dest_file = Some clip \<and>
      frames clip = (if ?ef - ?sf < 0 then drop (nat ?sf) (frames w)
                     else take (nat (?ef - ?sf)) (drop (nat ?sf) (frames w))) \<and>
      int (length (frames clip)) =
        (if ?ef - ?sf < 0 then int (length (frames w)) - ?sf
         else min (?ef - ?sf) (int (length (frames w)) - ?sf))"
    if range: "0 \<le> ?sf" "?sf \<le> int (length (frames w))"
  proof -
    let ?clip = "w\<lparr>frames := readframes w ?sf (?ef - ?sf)\<rparr>"
    have 1: "audio_excerpts (final ?out) dest_file = Some ?clip"
      using assms range by (simp add: extract_audio_Some)
    have 2: "frames ?clip = (if ?ef - ?sf < 0 then drop (nat ?sf) (frames w)
                     else take (nat (?ef - ?sf)) (drop (nat ?sf) (frames w)))"
      by (simp add: readframes_def)
    have 3: "int (length (frames ?clip)) =
        (if ?ef - ?sf < 0 then int (length (frames w)) - ?sf
         else min (?ef - ?sf) (int (length (frames w)) - ?sf))"
      using readframes_length [OF range, of "?ef - ?sf"] by simp
    from 1 2 3 show ?thesis by blast
  qed
  from fails returns clip show ?thesis by blast
qed

text \<open>On the five-second wav: the window from second 6 to 7 starts beyond the last
  frame and fails; the window from second 1 to 3 gives its 16000 frames.\<close>

theorem extract_audio_fails_iff_witness:
  "(\<exists>s'. extract_audio one_wav ''talk.wav'' 6 7 ''clip.wav'' (initial one_wav) = Raised Wave_Error s') \<and>
   (\<exists>clip. audio_excerpts (final (extract_audio one_wav ''talk.wav'' 1 3 ''clip.wav'' (initial one_wav)))
      ''clip.wav'' = Some clip \<and> int (length (frames clip)) = 16000)"
proof -
  have w: "wav_files one_wav ''talk.wav'' = Some (silence 8000 40000)"
    by (simp add: one_wav_def)
  have fr: "framerate (silence 8000 40000) = 8000" "length (frames (silence 8000 40000)) = 40000"
    by (simp_all add: silence_def)
  have tf: "to_frame 8000 6 = 48000" "to_frame 8000 1 = 8000" "to_frame 8000 3 = 24000"
    by (simp_all add: to_frame_def py_int_def float_simps)
  from extract_audio_fails_iff [OF w, of 6 7 "''clip.wav''" "initial one_wav"]
  have a: "\<exists>s'. extract_audio one_wav ''talk.wav'' 6 7 ''clip.wav'' (initial one_wav) = Raised Wave_Error s'"
    unfolding fr tf by simp
  from extract_audio_fails_iff [OF w, of 1 3 "''clip.wav''" "initial one_wav"]
  have b: "\<exists>clip. audio_excerpts (final (extract_audio one_wav ''talk.wav'' 1 3 ''clip.wav'' (initial one_wav)))
      ''clip.wav'' = Some clip \<and> int (length (frames clip)) = 16000"
    unfolding fr tf by auto
  from a b show ?thesis by blast
qed

text \<open>
  Against claim C5 as stated: a window from second 2 to second 2 has frame count 0, yet
  the call returns and writes an empty clip; a window from second 3 back to second 2
  has frame count -8000, yet the call returns and writes the 16000 frames from second
  3 to the end.
\<close>

theorem nonpositive_frame_count_counterexample:
  "completed (extract_audio one_wav ''talk.wav'' 2 2 ''clip.wav'' (initial one_wav)) \<and>
   to_frame 8000 2 - to_frame 8000 2 = 0 \<and>
   audio_excerpts (final (extract_audio one_wav ''talk.wav'' 2 2 ''clip.wav'' (initial one_wav)))
     ''clip.wav'' = Some (silence 8000 0) \<and>
   completed (extract_audio one_wav ''talk.wav'' 3 2 ''clip.wav'' (initial one_wav)) \<and>
   to_frame 8000 2 - to_frame 8000 3 = - 8000 \<and>
   audio_excerpts (final (extract_audio one_wav ''talk.wav'' 3 2 ''clip.wav'' (initial one_wav)))
     ''clip.wav'' = Some (silence 8000 16000)"
  by (simp add: extract_audio_def one_wav_def silence_def to_frame_def py_int_def setpos_def
      readframes_def initial_def float_simps)

text \<open>The same directory with a five-second wav at 44100 frames per second.\<close>

definition cd_wav :: env where
  "cd_wav =
     \<lparr>STRINGS = [], AUDIO_EXCERPTS = ''/work/audio_excerpts'',
      wav_files = [''talk.wav'' \<mapsto> silence 44100 220500],
      tsvs = [], old_excerpts = Map.empty, py_float = float_digits\<rparr>"

text \<open>\<open>int\<close> cuts the fraction of the float product off: towards zero, on either side
  of it.\<close>

lemma to_frame_truncates:
  "to_frame fps t =
     (if 0 \<le> fmul (double (of_nat fps)) t then \<lfloor>fmul (double (of_nat fps)) t\<rfloor>
      else - \<lfloor>- fmul (double (of_nat fps)) t\<rfloor>)"
  by (simp add: to_frame_def py_int_def ceiling_def)

text \<open>The frame is cut from the float product, which is not always the exact one:
  0.009 s at 48000 frames per second is frame 431 and 1.001 s at 8000 is frame 8007, where
  the products in the reals are 432 and 8008; and 0.204 s less the padding, at 8000
  frames per second, is frame 31, the padded time being a little less than 0.004.\<close>

lemma to_frame_examples:
  "to_frame 8000 (fdiv 9 1000) = 72 \<and>
   to_frame 48000 (fdiv 9 1000) = 431 \<and> \<lfloor>48000 * (9 / 1000 :: real)\<rfloor> = 432 \<and>
   to_frame 8000 (fdiv 1001 1000) = 8007 \<and> \<lfloor>8000 * (1001 / 1000 :: real)\<rfloor> = 8008 \<and>
   to_frame 8000 (fsub (fdiv 204 1000) py_0_2) = 31 \<and>
   \<lfloor>8000 * (204 / 1000 - 1 / 5 :: real)\<rfloor> = 32 \<and>
   fsub (fdiv 204 1000) py_0_2 = 144115188075855 / 36028797018963968"
  by (simp add: to_frame_def py_int_def float_simps)

text \<open>
  Claim C4, as the code has it. The claim rounds to the nearest frame; the script
  takes \<open>int(fps * start_time)\<close> and \<open>int(fps * end_time)\<close>: in every call the start
  and the end frame are the float products with their fraction cut off (towards zero).
  The frame count handed to \<open>readframes\<close> is \<open>end_frame - start_frame\<close>, and that
  many frames are extracted when \<open>0 \<le> start_frame \<le> end_frame \<le> nframes\<close>.
\<close>

theorem frames_by_truncation:
  "to_frame (framerate w) start_time =
     (if 0 \<le> fmul (double (of_nat (framerate w))) start_time
      then \<lfloor>fmul (double (of_nat (framerate w))) start_time\<rfloor>
      else - \<lfloor>- fmul (double (of_nat (framerate w))) start_time\<rfloor>) \<and>
   to_frame (framerate w) end_time =
     (if 0 \<le> fmul (double (of_nat (framerate w))) end_time
      then \<lfloor>fmul (double (of_nat (framerate w))) end_time\<rfloor>
      else - \<lfloor>- fmul (double (of_nat (framerate w))) end_time\<rfloor>) \<and>
   (wav_files E source_file = Some w \<and> 0 \<le> to_frame (framerate w) start_time \<and>
    to_frame (framerate w) start_time \<le> int (length (frames w)) \<longrightarrow>
      (\<exists>s' clip. extract_audio E source_file start_time end_time dest_file s = Done s' \<and>
         audio_excerpts s' dest_file = Some clip \<and>
         frames clip =
           readframes w (to_frame (framerate w) start_time)
             (to_frame (framerate w) end_time - to_frame (framerate w) start_time))) \<and>
   (wav_files E source_file = Some w \<and> 0 \<le> to_frame (framerate w) start_time \<and>
    to_frame (framerate w) start_time \<le> to_frame (framerate w) end_time \<and>
    to_frame (framerate w) end_time \<le> int (length (frames w)) \<longrightarrow>
      (\<exists>s' clip. extract_audio E source_file start_time end_time dest_file s = Done s' \<and>
         audio_excerpts s' dest_file = Some clip \<and>
         frames clip =
           take (nat (to_frame (framerate w) end_time - to_frame (framerate w) start_time))
             (drop (nat (to_frame (framerate w) start_time)) (frames w)) \<and>
         int (length (frames clip)) =
           to_frame (framerate w) end_time - to_frame (framerate w) start_time))"
proof -
  let ?sf = "to_frame (framerate w) start_time"
  let ?ef = "to_frame (framerate w) end_time"
  let ?clip = "w\<lparr>frames := readframes w ?sf (?ef - ?sf)\<rparr>"
  let ?out = "extract_audio E source_file start_time end_time dest_file s"
  have asked: "\<exists>s' clip. ?out = Done s' \<and> audio_excerpts s' dest_file = Some clip \<and>
      frames clip = readframes w ?sf (?ef - ?sf)"
    if "wav_files E source_file = Some w" "0 \<le> ?sf" "?sf \<le> int (length (frames w))"
    using that by (simp add: extract_audio_Some)
  have got: "\<exists>s' clip. ?out = Done s' \<and> audio_excerpts s' dest_file = Some clip \<and>
      frames clip = take (nat (?ef - ?sf)) (drop (nat ?sf) (frames w)) \<and>
      int (length (frames clip)) = ?ef - ?sf"
    if h: "wav_files E source_file = Some w" "0 \<le> ?sf" "?sf \<le> ?ef"
      "?ef \<le> int (length (frames w))"
  proof -
    have fr: "frames ?clip = take (nat (?ef - ?sf)) (drop (nat ?sf) (frames w))"
      using h by (simp add: readframes_def)
    have "int (length (take (nat (?ef - ?sf)) (drop (nat ?sf) (frames w)))) = ?ef - ?sf"
      using h by simp
    with fr have len: "int (length (frames ?clip)) = ?ef - ?sf" by simp
    have "?out =
        Done (s\<lparr>calls := calls s @ [(source_file, start_time, end_time, dest_file)],
                audio_excerpts := (audio_excerpts s)(dest_file \<mapsto> ?clip),
                extracted := extracted s @ [dest_file]\<rparr>)"
      using h by (simp add: extract_audio_Some)
    with fr len show ?thesis by simp
  qed
  from asked got to_frame_truncates [of "framerate w" start_time]
    to_frame_truncates [of "framerate w" end_time]
  show ?thesis by blast
qed

text \<open>From second 1.237 to second 2 at 44100 frames per second: frames 54551 to 88200,
  a clip of 33649 frames.\<close>

theorem frames_by_truncation_witness:
  "to_frame 44100 (fdiv 1237 1000) = 54551 \<and> to_frame 44100 2 = 88200 \<and>
   (\<exists>s' clip. extract_audio cd_wav ''talk.wav'' (fdiv 1237 1000) 2 ''clip.wav'' (initial cd_wav) = Done s' \<and>
      audio_excerpts s' ''clip.wav'' = Some clip \<and> int (length (frames clip)) = 33649)"
proof -
  have w: "wav_files cd_wav ''talk.wav'' = Some (silence 44100 220500)"
    by (simp add: cd_wav_def)
  have fr: "framerate (silence 44100 220500) = 44100"
      "length (frames (silence 44100 220500)) = 220500"
    by (simp_all add: silence_def)
  have tf: "to_frame 44100 (fdiv 1237 1000) = 54551" "to_frame 44100 2 = 88200"
    by (simp_all add: to_frame_def py_int_def float_simps)
  from frames_by_truncation [of "silence 44100 220500" "fdiv 1237 1000" 2 cd_wav "''talk.wav''"
      "''clip.wav''" "initial cd_wav"]
  show ?thesis unfolding fr tf using w by auto
qed

text \<open>
  Against claim C4 as stated: 1.237 s at 44100 frames per second is frame 54551.7; the
  script starts at frame 54551, rounding would start at 54552, and the clip up to
  second 2 has 33649 frames where the rounded bounds give 33648.
\<close>

theorem rounding_counterexample:
  "to_frame 44100 (fdiv 1237 1000) = 54551 \<and>
   round (fmul 44100 (fdiv 1237 1000)) = 54552 \<and>
   map_option (\<lambda>clip. length (frames clip))
     (audio_excerpts
        (final (extract_audio cd_wav ''talk.wav'' (fdiv 1237 1000) 2 ''clip.wav'' (initial cd_wav)))
        ''clip.wav'') = Some 33649 \<and>
   round (fmul 44100 2) - round (fmul 44100 (fdiv 1237 1000)) = 33648"
  by (simp add: extract_audio_def cd_wav_def silence_def to_frame_def py_int_def setpos_def
      readframes_def initial_def round_def float_simps)

section \<open>One match: \<open>extract_match\<close>\<close>

text \<open>A transcript of two rows beside a wav of 1000 frames at 44100 frames per second
  (less than 0.03 s).\<close>

definition short_wav :: env where
  "short_wav =
     \<lparr>STRINGS = [''hello''], AUDIO_EXCERPTS = ''/work/audio_excerpts'',
      wav_files = [''talk.wav'' \<mapsto> silence 44100 1000],
      tsvs = [\<lparr>stem = ''talk'',
               tsv_rows = [[''start'', ''end'', ''text''],
                           [''0'', ''90'', ''Welcome''],
                           [''100'', ''900'', ''Hello world'']]\<rparr>],
      old_excerpts = Map.empty, py_float = float_digits\<rparr>"



lemma calls_extract_audio:
  "calls (final (extract_audio E f a b d s)) = calls s @ [(f, a, b, d)]"
  by (simp add: extract_audio_def Let_def split: option.splits sum.splits)

lemma extract_match_unfold:
  "extract_match E f word a b t s =
     (let d = dest_wav_filename E (unique_id s);
          o1 = extract_audio E f (fsub a py_0_2) (fadd b py_0_2) d s;
          o2 = extract_audio E f a b d (final o1)
      in if completed o1 then Done (write_row d f word a b t (final o1))
         else if completed o2 then Done (write_row d f word a b t (final o2))
         else o2)"
proof -
  let ?d = "dest_wav_filename E (unique_id s)"
  let ?o1 = "extract_audio E f (fsub a py_0_2) (fadd b py_0_2) ?d s"
  show ?thesis
  proof (cases ?o1)
    case (Done s1)
    then show ?thesis by (simp add: extract_match_def Let_def)
  next
    case (Raised e1 s1)
    then show ?thesis
      by (cases "extract_audio E f a b ?d s1") (simp_all add: extract_match_def Let_def)
  qed
qed

lemma calls_write_row [simp]: "calls (write_row d f w a b t s) = calls s"
  by (simp add: write_row_def)

text \<open>An exception raised in the body of a loop is the outcome of the loop: the script
  has no \<open>try\<close> but the one around the padded call.\<close>

lemma search_words_raises:
  "str_in word (lower text) \<Longrightarrow> \<not> completed (extract_match E f word a b text s) \<Longrightarrow>
   search_words E f a b text (word # ws) s = extract_match E f word a b text s"
  by (cases "extract_match E f word a b text s") simp_all

lemma search_row_parsed:
  "read_row E row = Inr (a, b, text) \<Longrightarrow>
   search_row E f row s = search_words E f a b text (STRINGS E) s"
  by (simp add: search_row_def)

lemma search_tsv_raises:
  "reader s = row # rest \<Longrightarrow> \<not> completed (search_row E f row (s\<lparr>reader := rest\<rparr>)) \<Longrightarrow>
   search_tsv E f s = search_row E f row (s\<lparr>reader := rest\<rparr>)"
  by (cases "search_row E f row (s\<lparr>reader := rest\<rparr>)") (simp_all add: search_tsv_Cons)

lemma main_rows_raises:
  "reader s = row # rest \<Longrightarrow> \<not> completed (search_tsv E f (s\<lparr>reader := rest\<rparr>)) \<Longrightarrow>
   main_rows E f s = search_tsv E f (s\<lparr>reader := rest\<rparr>)"
  by (cases "search_tsv E f (s\<lparr>reader := rest\<rparr>)") (simp_all add: main_rows.simps [of E f s])

lemma main_files_raises:
  "tsv_rows file = header # rest \<Longrightarrow>
   \<not> completed (main_rows E (stem file @ ''.wav'') (s\<lparr>reader := rest\<rparr>)) \<Longrightarrow>
   main_files E (file # others) s = main_rows E (stem file @ ''.wav'') (s\<lparr>reader := rest\<rparr>)"
  by (cases "main_rows E (stem file @ ''.wav'') (s\<lparr>reader := rest\<rparr>)") simp_all

text \<open>
  Claim C8. For a match, the slicer is first called on the window widened by 0.2 s on
  both sides. If that call returns, it is the only call. If it raises, the slicer is
  called once more, on the original window; these two are then all the calls made for
  the match. If the second call raises too, its exception is the outcome of the match,
  of the word loop, of the row, of \<open>search_tsv\<close>, of the loop over the transcript and
  of the loop over the files: the run stops there.
\<close>

theorem padded_then_one_retry:
  "calls (final (extract_match E f word start_time end_time text s)) =
     calls s @
       (if completed (extract_audio E f (fsub start_time py_0_2) (fadd end_time py_0_2)
             (dest_wav_filename E (unique_id s)) s)
        then [(f, fsub start_time py_0_2, fadd end_time py_0_2, dest_wav_filename E (unique_id s))]
        else [(f, fsub start_time py_0_2, fadd end_time py_0_2, dest_wav_filename E (unique_id s)),
              (f, start_time, end_time, dest_wav_filename E (unique_id s))]) \<and>
   completed (extract_match E f word start_time end_time text s) =
     (completed (extract_audio E f (fsub start_time py_0_2) (fadd end_time py_0_2)
         (dest_wav_filename E (unique_id s)) s) \<or>
      completed (extract_audio E f start_time end_time (dest_wav_filename E (unique_id s))
         (final (extract_audio E f (fsub start_time py_0_2) (fadd end_time py_0_2)
            (dest_wav_filename E (unique_id s)) s)))) \<and>
   (\<not> completed (extract_match E f word start_time end_time text s) \<longrightarrow>
      extract_match E f word start_time end_time text s =
        extract_audio E f start_time end_time (dest_wav_filename E (unique_id s))
          (final (extract_audio E f (fsub start_time py_0_2) (fadd end_time py_0_2)
             (dest_wav_filename E (unique_id s)) s)) \<and>
      (str_in word (lower text) \<longrightarrow>
         search_words E f start_time end_time text (word # ws) s =
           extract_match E f word start_time end_time text s)) \<and>
   (\<forall>s0 row. read_row E row = Inr (start_time, end_time, text) \<longrightarrow>
      search_row E f row s0 = search_words E f start_time end_time text (STRINGS E) s0) \<and>
   (\<forall>s0 row rest. reader s0 = row # rest \<and>
        \<not> completed (search_row E f row (s0\<lparr>reader := rest\<rparr>)) \<longrightarrow>
      search_tsv E f s0 = search_row E f row (s0\<lparr>reader := rest\<rparr>)) \<and>
   (\<forall>s0 row rest. reader s0 = row # rest \<and>
        \<not> completed (search_tsv E f (s0\<lparr>reader := rest\<rparr>)) \<longrightarrow>
      main_rows E f s0 = search_tsv E f (s0\<lparr>reader := rest\<rparr>)) \<and>
   (\<forall>s0 file header rest others. tsv_rows file = header # rest \<and>
        \<not> completed (main_rows E (stem file @ ''.wav'') (s0\<lparr>reader := rest\<rparr>)) \<longrightarrow>
      main_files E (file # others) s0 =
        main_rows E (stem file @ ''.wav'') (s0\<lparr>reader := rest\<rparr>))"
proof -
  let ?d = "dest_wav_filename E (unique_id s)"
  let ?o1 = "extract_audio E f (fsub start_time py_0_2) (fadd end_time py_0_2) ?d s"
  let ?o2 = "extract_audio E f start_time end_time ?d (final ?o1)"
  let ?m = "extract_match E f word start_time end_time text s"
  have c1: "calls (final ?o1) = calls s @ [(f, fsub start_time py_0_2, fadd end_time py_0_2, ?d)]"
    by (rule calls_extract_audio)
  have c2: "calls (final ?o2) = calls (final ?o1) @ [(f, start_time, end_time, ?d)]"
    by (rule calls_extract_audio)
  have calls: "calls (final ?m) = calls s @
      (if completed ?o1 then [(f, fsub start_time py_0_2, fadd end_time py_0_2, ?d)]
       else [(f, fsub start_time py_0_2, fadd end_time py_0_2, ?d), (f, start_time, end_time, ?d)])"
    using c1 c2
    by (simp add: extract_match_unfold [of E f word start_time end_time "text" s] Let_def)
  have compl: "completed ?m = (completed ?o1 \<or> completed ?o2)"
    by (simp add: extract_match_unfold [of E f word start_time end_time "text" s] Let_def)
  have fail: "\<not> completed ?m \<longrightarrow> ?m = ?o2"
    by (simp add: extract_match_unfold [of E f word start_time end_time "text" s] Let_def)
  have up: "\<not> completed ?m \<longrightarrow> str_in word (lower text) \<longrightarrow>
      search_words E f start_time end_time text (word # ws) s = ?m"
    using search_words_raises [of word "text" E f start_time end_time s ws] by blast
  have l0: "\<forall>s0 row. read_row E row = Inr (start_time, end_time, text) \<longrightarrow>
      search_row E f row s0 = search_words E f start_time end_time text (STRINGS E) s0"
    using search_row_parsed by blast
  have l1: "\<forall>s0 row rest. reader s0 = row # rest \<and>
        \<not> completed (search_row E f row (s0\<lparr>reader := rest\<rparr>)) \<longrightarrow>
      search_tsv E f s0 = search_row E f row (s0\<lparr>reader := rest\<rparr>)"
    using search_tsv_raises by blast
  have l2: "\<forall>s0 row rest. reader s0 = row # rest \<and>
        \<not> completed (search_tsv E f (s0\<lparr>reader := rest\<rparr>)) \<longrightarrow>
      main_rows E f s0 = search_tsv E f (s0\<lparr>reader := rest\<rparr>)"
    using main_rows_raises by blast
  have l3: "\<forall>s0 file header rest others. tsv_rows file = header # rest \<and>
        \<not> completed (main_rows E (stem file @ ''.wav'') (s0\<lparr>reader := rest\<rparr>)) \<longrightarrow>
      main_files E (file # others) s0 =
        main_rows E (stem file @ ''.wav'') (s0\<lparr>reader := rest\<rparr>)"
    using main_files_raises by blast
  from fail up have fu: "\<not> completed ?m \<longrightarrow> ?m = ?o2 \<and> (str_in word (lower text) \<longrightarrow>
      search_words E f start_time end_time text (word # ws) s = ?m)"
    by blast
  show ?thesis
    by (intro conjI) (rule calls, rule compl, rule fu, rule l0, rule l1, rule l2, rule l3)
qed

text \<open>With a wav of 1000 frames at 44100 frames per second, a match from
  0.1 s to 0.9 s: the padded window starts before the first frame, the original one
  after the last. The two calls are all the calls, and the exception of the second is
  the outcome of the match and of the whole run.\<close>

theorem padded_then_one_retry_witness:
  "calls (final (extract_match short_wav ''talk.wav'' ''hello'' (fdiv 100 1000) (fdiv 900 1000) ''Hello world''
      (initial short_wav))) =
     [(''talk.wav'', fsub (fdiv 100 1000) py_0_2, fadd (fdiv 900 1000) py_0_2, ''/work/audio_excerpts/chunk_0.wav''),
      (''talk.wav'', fdiv 100 1000, fdiv 900 1000, ''/work/audio_excerpts/chunk_0.wav'')] \<and>
   extract_match short_wav ''talk.wav'' ''hello'' (fdiv 100 1000) (fdiv 900 1000) ''Hello world'' (initial short_wav) =
     Raised Wave_Error
       ((initial short_wav)\<lparr>calls :=
          [(''talk.wav'', fsub (fdiv 100 1000) py_0_2, fadd (fdiv 900 1000) py_0_2, ''/work/audio_excerpts/chunk_0.wav''),
           (''talk.wav'', fdiv 100 1000, fdiv 900 1000, ''/work/audio_excerpts/chunk_0.wav'')]\<rparr>) \<and>
   main short_wav =
     extract_match short_wav ''talk.wav'' ''hello'' (fdiv 100 1000) (fdiv 900 1000) ''Hello world'' (initial short_wav)"
proof -
  let ?d = "''/work/audio_excerpts/chunk_0.wav''"
  let ?E = short_wav
  let ?s = "initial short_wav"
  let ?r1 = "[''0'', ''90'', ''Welcome'']"
  let ?r2 = "[''100'', ''900'', ''Hello world'']"
  let ?tsv = "\<lparr>stem = ''talk'', tsv_rows = [[''start'', ''end'', ''text''], ?r1, ?r2]\<rparr>"
  let ?m = "extract_match ?E ''talk.wav'' ''hello'' (fdiv 100 1000) (fdiv 900 1000) ''Hello world'' ?s"
  let ?s1 = "?s\<lparr>calls := [(''talk.wav'', fsub (fdiv 100 1000) py_0_2, fadd (fdiv 900 1000) py_0_2, ?d)]\<rparr>"
  let ?s2 = "?s\<lparr>calls := [(''talk.wav'', fsub (fdiv 100 1000) py_0_2, fadd (fdiv 900 1000) py_0_2, ?d),
               (''talk.wav'', fdiv 100 1000, fdiv 900 1000, ?d)]\<rparr>"
  note T = padded_then_one_retry [of ?E "''talk.wav''" "''hello''" "fdiv 100 1000" "fdiv 900 1000"
      "''Hello world''" ?s "[]"]
  have d: "dest_wav_filename ?E (unique_id ?s) = ?d"
    by (simp add: dest_wav_filename_def short_wav_def initial_def str_nat.simps digit_char_def)
  have o1: "extract_audio ?E ''talk.wav'' (fsub (fdiv 100 1000) py_0_2) (fadd (fdiv 900 1000) py_0_2) ?d ?s = Raised Wave_Error ?s1"
    by (simp add: extract_audio_def short_wav_def silence_def to_frame_def py_int_def setpos_def
        initial_def float_simps)
  have o2: "extract_audio ?E ''talk.wav'' (fdiv 100 1000) (fdiv 900 1000) ?d ?s1 = Raised Wave_Error ?s2"
    by (simp add: extract_audio_def short_wav_def silence_def to_frame_def py_int_def setpos_def
        initial_def float_simps)
  have i: "calls ?s = []" "reader ?s = []" "?s\<lparr>reader := []\<rparr> = ?s"
    by (simp_all add: initial_def)
  have hit: "str_in ''hello'' (lower ''Hello world'')"
    by (simp add: lower_def lower_char_def)
  have row: "read_row ?E ?r2 = Inr (fdiv 100 1000, fdiv 900 1000, ''Hello world'')"
    by (simp add: read_row_def short_wav_def float_digits_def digit_val_def float_simps)
  have words: "STRINGS ?E = [''hello'']" and files: "tsvs ?E = [?tsv]"
    by (simp_all add: short_wav_def)
  from T have calls: "calls (final ?m) = [(''talk.wav'', fsub (fdiv 100 1000) py_0_2, fadd (fdiv 900 1000) py_0_2, ?d),
      (''talk.wav'', fdiv 100 1000, fdiv 900 1000, ?d)]"
    unfolding d o1 using i by simp
  from T have raised: "?m = Raised Wave_Error ?s2"
    unfolding d o1 using o2 by simp
  from T raised hit
  have w: "search_words ?E ''talk.wav'' (fdiv 100 1000) (fdiv 900 1000) ''Hello world'' [''hello''] ?s = ?m"
    by simp
  from T row have "search_row ?E ''talk.wav'' ?r2 ?s =
      search_words ?E ''talk.wav'' (fdiv 100 1000) (fdiv 900 1000) ''Hello world'' (STRINGS ?E) ?s"
    by blast
  with w words have r: "search_row ?E ''talk.wav'' ?r2 ?s = ?m" by simp
  have e0: "?s\<lparr>reader := [?r2]\<rparr>\<lparr>reader := []\<rparr> = ?s" by (simp add: initial_def)
  have e1: "?s\<lparr>reader := [?r1, ?r2]\<rparr>\<lparr>reader := [?r2]\<rparr> = ?s\<lparr>reader := [?r2]\<rparr>" by simp
  from T have "reader (?s\<lparr>reader := [?r2]\<rparr>) = ?r2 # [] \<and>
      \<not> completed (search_row ?E ''talk.wav'' ?r2 (?s\<lparr>reader := [?r2]\<rparr>\<lparr>reader := []\<rparr>)) \<longrightarrow>
      search_tsv ?E ''talk.wav'' (?s\<lparr>reader := [?r2]\<rparr>) =
        search_row ?E ''talk.wav'' ?r2 (?s\<lparr>reader := [?r2]\<rparr>\<lparr>reader := []\<rparr>)"
    by blast
  then have t: "search_tsv ?E ''talk.wav'' (?s\<lparr>reader := [?r2]\<rparr>) = ?m"
    unfolding e0 r raised by simp
  from T have "reader (?s\<lparr>reader := [?r1, ?r2]\<rparr>) = ?r1 # [?r2] \<and>
      \<not> completed (search_tsv ?E ''talk.wav'' (?s\<lparr>reader := [?r1, ?r2]\<rparr>\<lparr>reader := [?r2]\<rparr>)) \<longrightarrow>
      main_rows ?E ''talk.wav'' (?s\<lparr>reader := [?r1, ?r2]\<rparr>) =
        search_tsv ?E ''talk.wav'' (?s\<lparr>reader := [?r1, ?r2]\<rparr>\<lparr>reader := [?r2]\<rparr>)"
    by blast
  then have mr: "main_rows ?E ''talk.wav'' (?s\<lparr>reader := [?r1, ?r2]\<rparr>) = ?m"
    unfolding e1 t raised by simp
  from T have "tsv_rows ?tsv = [''start'', ''end'', ''text''] # [?r1, ?r2] \<and>
      \<not> completed (main_rows ?E (stem ?tsv @ ''.wav'') (?s\<lparr>reader := [?r1, ?r2]\<rparr>)) \<longrightarrow>
      main_files ?E (?tsv # []) ?s = main_rows ?E (stem ?tsv @ ''.wav'') (?s\<lparr>reader := [?r1, ?r2]\<rparr>)"
    by blast
  then have "main_files ?E [?tsv] ?s = ?m"
    using mr raised by simp
  with files have run: "main ?E = ?m" by (simp add: main_def)
  from calls raised run show ?thesis by blast
qed

text \<open>
  Claim C3, as the code has it. A start time below 0.2 s is not enough for the padded
  call to fail, nor for the fallback to succeed: \<open>int\<close> cuts a padded start of less
  than one frame before zero up to frame 0, and the original window can itself lie
  outside the wav. What decides is the padded start frame. For a match on a wav that
  opens and whose padded start frame \<open>int(fps * (start_time - 0.2))\<close> is negative, the
  padded call fails with \<open>wave.Error\<close> and the slicer is called once more, on the
  original window. That call returns exactly when the original start frame lies
  within the wav (\<open>0 \<le> start_frame \<le> nframes\<close>): then the clip holds the original
  window, the metadata row is written and the run goes on. Otherwise it raises
  \<open>wave.Error\<close> too, nothing is written and the run stops.
\<close>

theorem fallback_at_start:
  assumes "wav_files E f = Some w"
    and "to_frame (framerate w) (fsub start_time py_0_2) < 0"
  shows "extract_audio E f (fsub start_time py_0_2) (fadd end_time py_0_2)
             (dest_wav_filename E (unique_id s)) s =
           Raised Wave_Error
             (s\<lparr>calls := calls s @
                [(f, fsub start_time py_0_2, fadd end_time py_0_2,
                  dest_wav_filename E (unique_id s))]\<rparr>) \<and>
         calls (final (extract_match E f word start_time end_time text s)) =
           calls s @
             [(f, fsub start_time py_0_2, fadd end_time py_0_2, dest_wav_filename E (unique_id s)),
              (f, start_time, end_time, dest_wav_filename E (unique_id s))] \<and>
         completed (extract_match E f word start_time end_time text s) =
           (0 \<le> to_frame (framerate w) start_time \<and>
            to_frame (framerate w) start_time \<le> int (length (frames w))) \<and>
         (0 \<le> to_frame (framerate w) start_time \<and>
          to_frame (framerate w) start_time \<le> int (length (frames w)) \<longrightarrow>
            (\<exists>s'. extract_match E f word start_time end_time text s = Done s' \<and>
               audio_excerpts s' (dest_wav_filename E (unique_id s)) =
                 Some (w\<lparr>frames := readframes w (to_frame (framerate w) start_time)
                         (to_frame (framerate w) end_time - to_frame (framerate w) start_time)\<rparr>) \<and>
               output_tsv s' = output_tsv s @
                 [\<lparr>row_identifier = dest_wav_filename E (unique_id s), row_parent_wav = f,
                   row_word = word, row_start_time = start_time, row_end_time = end_time,
                   row_text = text\<rparr>] \<and>
               unique_id s' = unique_id s + 1)) \<and>
         (to_frame (framerate w) start_time < 0 \<or>
          int (length (frames w)) < to_frame (framerate w) start_time \<longrightarrow>
            (\<exists>s'. extract_match E f word start_time end_time text s = Raised Wave_Error s' \<and>
               output_tsv s' = output_tsv s \<and> unique_id s' = unique_id s \<and>
               audio_excerpts s' = audio_excerpts s))"
proof -
  let ?d = "dest_wav_filename E (unique_id s)"
  let ?P = "(f, fsub start_time py_0_2, fadd end_time py_0_2, ?d)"
  let ?U = "(f, start_time, end_time, ?d)"
  let ?s1 = "s\<lparr>calls := calls s @ [?P]\<rparr>"
  let ?sf = "to_frame (framerate w) start_time"
  let ?clip = "w\<lparr>frames := readframes w ?sf (to_frame (framerate w) end_time - ?sf)\<rparr>"
  let ?s2 = "?s1\<lparr>calls := calls ?s1 @ [?U],
                  audio_excerpts := (audio_excerpts ?s1)(?d \<mapsto> ?clip),
                  extracted := extracted ?s1 @ [?d]\<rparr>"
  let ?s3 = "?s1\<lparr>calls := calls ?s1 @ [?U]\<rparr>"
  let ?m = "extract_match E f word start_time end_time text s"
  have o1: "extract_audio E f (fsub start_time py_0_2) (fadd end_time py_0_2) ?d s =
      Raised Wave_Error ?s1"
    using assms by (simp add: extract_audio_Some)
  have o2: "extract_audio E f start_time end_time ?d ?s1 =
      (if ?sf < 0 \<or> int (length (frames w)) < ?sf then Raised Wave_Error ?s3 else Done ?s2)"
    using assms(1) by (simp add: extract_audio_Some)
  have m: "?m = (if ?sf < 0 \<or> int (length (frames w)) < ?sf then Raised Wave_Error ?s3
      else Done (write_row ?d f word start_time end_time text ?s2))"
    using o1 o2 by (simp add: extract_match_def Let_def)
  have calls: "calls (final ?m) = calls s @ [?P, ?U]"
    unfolding m by (simp add: write_row_def)
  have compl: "completed ?m = (0 \<le> ?sf \<and> ?sf \<le> int (length (frames w)))"
    unfolding m by auto
  have good: "0 \<le> ?sf \<and> ?sf \<le> int (length (frames w)) \<longrightarrow>
      (\<exists>s'. ?m = Done s' \<and> audio_excerpts s' ?d = Some ?clip \<and>
         output_tsv s' = output_tsv s @
           [\<lparr>row_identifier = ?d, row_parent_wav = f, row_word = word,
             row_start_time = start_time, row_end_time = end_time, row_text = text\<rparr>] \<and>
         unique_id s' = unique_id s + 1)"
    unfolding m by (simp add: write_row_def)
  have bad: "?sf < 0 \<or> int (length (frames w)) < ?sf \<longrightarrow>
      (\<exists>s'. ?m = Raised Wave_Error s' \<and> output_tsv s' = output_tsv s \<and>
         unique_id s' = unique_id s \<and> audio_excerpts s' = audio_excerpts s)"
    unfolding m by simp
  show ?thesis
    by (intro conjI) (rule o1, rule calls, rule compl, rule good, rule bad)
qed

text \<open>The equations that evaluate a run on a concrete input.\<close>

lemmas run_simps =
  main_def initial_def main_rows.simps search_tsv.simps search_row_def read_row_def
  float_digits_def digit_val_def lower_def lower_char_def extract_match_def extract_audio_def
  to_frame_def py_int_def setpos_def readframes_def silence_def write_row_def
  dest_wav_filename_def str_nat.simps digit_char_def float_simps

text \<open>
  Against claim C3 as stated. At 44100 frames per second a match starting at 0.19999 s
  has its padded start 0.441 frames before zero, which \<open>int\<close> makes frame 0: the
  padded call returns and is the only call. And with a wav of only 1000 frames, a match
  from 0.1 s to 0.9 s falls back to a window that starts at frame 4410: the second call
  raises too and the run stops.
\<close>

theorem start_below_margin_counterexample:
  "calls (final (extract_match cd_wav ''talk.wav'' ''hello'' (fdiv (double (19999 / 100)) 1000) 1 ''Hello''
      (initial cd_wav))) =
     [(''talk.wav'', fsub (fdiv (double (19999 / 100)) 1000) py_0_2, fadd 1 py_0_2, ''/work/audio_excerpts/chunk_0.wav'')] \<and>
   completed (extract_audio cd_wav ''talk.wav'' (fsub (fdiv (double (19999 / 100)) 1000) py_0_2) (fadd 1 py_0_2)
      ''/work/audio_excerpts/chunk_0.wav'' (initial cd_wav)) \<and>
   main short_wav =
     Raised Wave_Error
       ((initial short_wav)\<lparr>calls :=
          [(''talk.wav'', fsub (fdiv 100 1000) py_0_2, fadd (fdiv 900 1000) py_0_2, ''/work/audio_excerpts/chunk_0.wav''),
           (''talk.wav'', fdiv 100 1000, fdiv 900 1000, ''/work/audio_excerpts/chunk_0.wav'')]\<rparr>)"
  by (simp add: run_simps cd_wav_def short_wav_def)

text \<open>A match from 0.1 s to 0.9 s. In the five-second wav at 8000 frames per second the
  padded call is refused and the clip is the 6400 frames of the original window. In the
  wav of 1000 frames at 44100 frames per second the original window is refused too.\<close>

theorem fallback_at_start_witness:
  "(\<exists>s'. extract_match one_wav ''talk.wav'' ''hello'' (fdiv 100 1000) (fdiv 900 1000)
            ''Hello world'' (initial one_wav) = Done s' \<and>
      audio_excerpts s' ''/work/audio_excerpts/chunk_0.wav'' = Some (silence 8000 6400) \<and>
      unique_id s' = 1) \<and>
   calls (final (extract_match one_wav ''talk.wav'' ''hello'' (fdiv 100 1000) (fdiv 900 1000)
      ''Hello world'' (initial one_wav))) =
     [(''talk.wav'', fsub (fdiv 100 1000) py_0_2, fadd (fdiv 900 1000) py_0_2,
       ''/work/audio_excerpts/chunk_0.wav''),
      (''talk.wav'', fdiv 100 1000, fdiv 900 1000, ''/work/audio_excerpts/chunk_0.wav'')] \<and>
   (\<exists>s'. extract_match short_wav ''talk.wav'' ''hello'' (fdiv 100 1000) (fdiv 900 1000)
            ''Hello world'' (initial short_wav) = Raised Wave_Error s' \<and>
      output_tsv s' = [])"
proof -
  have w: "wav_files one_wav ''talk.wav'' = Some (silence 8000 40000)"
    by (simp add: one_wav_def)
  have v: "wav_files short_wav ''talk.wav'' = Some (silence 44100 1000)"
    by (simp add: short_wav_def)
  have fr: "framerate (silence 8000 40000) = 8000" "length (frames (silence 8000 40000)) = 40000"
      "framerate (silence 44100 1000) = 44100" "length (frames (silence 44100 1000)) = 1000"
    by (simp_all add: silence_def)
  have tf: "to_frame 8000 (fsub (fdiv 100 1000) py_0_2) = - 800"
      "to_frame 8000 (fdiv 100 1000) = 800" "to_frame 8000 (fdiv 900 1000) = 7200"
      "to_frame 44100 (fsub (fdiv 100 1000) py_0_2) = - 4410"
      "to_frame 44100 (fdiv 100 1000) = 4410"
    by (simp_all add: to_frame_def py_int_def float_simps)
  have h: "to_frame (framerate (silence 8000 40000)) (fsub (fdiv 100 1000) py_0_2) < 0"
    unfolding fr tf by simp
  have k: "to_frame (framerate (silence 44100 1000)) (fsub (fdiv 100 1000) py_0_2) < 0"
    unfolding fr tf by simp
  have d: "dest_wav_filename one_wav (unique_id (initial one_wav)) = ''/work/audio_excerpts/chunk_0.wav''"
    by (simp add: dest_wav_filename_def one_wav_def initial_def str_nat.simps digit_char_def)
  have c: "silence 8000 40000\<lparr>frames := readframes (silence 8000 40000) 800 (7200 - 800)\<rparr>
      = silence 8000 6400"
    by (simp add: silence_def readframes_def)
  have i: "calls (initial one_wav) = []" "unique_id (initial one_wav) = 0"
      "output_tsv (initial short_wav) = []"
    by (simp_all add: initial_def)
  from fallback_at_start [OF w h, of "fdiv 900 1000" "initial one_wav" "''hello''" "''Hello world''"]
  have a: "(\<exists>s'. extract_match one_wav ''talk.wav'' ''hello'' (fdiv 100 1000) (fdiv 900 1000)
            ''Hello world'' (initial one_wav) = Done s' \<and>
      audio_excerpts s' ''/work/audio_excerpts/chunk_0.wav'' = Some (silence 8000 6400) \<and>
      unique_id s' = 1) \<and>
     calls (final (extract_match one_wav ''talk.wav'' ''hello'' (fdiv 100 1000) (fdiv 900 1000)
        ''Hello world'' (initial one_wav))) =
       [(''talk.wav'', fsub (fdiv 100 1000) py_0_2, fadd (fdiv 900 1000) py_0_2,
         ''/work/audio_excerpts/chunk_0.wav''),
        (''talk.wav'', fdiv 100 1000, fdiv 900 1000, ''/work/audio_excerpts/chunk_0.wav'')]"
    unfolding fr tf d c using i by auto
  from fallback_at_start [OF v k, of "fdiv 900 1000" "initial short_wav" "''hello''" "''Hello world''"]
  have b: "\<exists>s'. extract_match short_wav ''talk.wav'' ''hello'' (fdiv 100 1000) (fdiv 900 1000)
            ''Hello world'' (initial short_wav) = Raised Wave_Error s' \<and> output_tsv s' = []"
    unfolding fr tf using i by auto
  from a b show ?thesis by blast
qed

text \<open>A transcript of three data rows beside the five-second wav at 8000 frames per
  second. The row at 0.1 s is cut by the fallback, the row at 1 s by the padded call.\<close>

definition two_clips :: env where
  "two_clips =
     \<lparr>STRINGS = [''hello'', ''test''], AUDIO_EXCERPTS = ''/work/audio_excerpts'',
      wav_files = [''talk.wav'' \<mapsto> silence 8000 40000],
      tsvs = [\<lparr>stem = ''talk'',
               tsv_rows = [[''start'', ''end'', ''text''],
                           [''0'', ''90'', ''Welcome''],
                           [''100'', ''900'', ''Hello world''],
                           [''1000'', ''2000'', ''this is a test'']]\<rparr>],
      old_excerpts = Map.empty, py_float = float_digits\<rparr>"

lemma two_clips_run:
  "completed (main two_clips) \<and>
   output_tsv (final (main two_clips)) =
     [\<lparr>row_identifier = ''/work/audio_excerpts/chunk_0.wav'', row_parent_wav = ''talk.wav'',
       row_word = ''hello'', row_start_time = fdiv 100 1000, row_end_time = fdiv 900 1000,
       row_text = ''Hello world''\<rparr>,
      \<lparr>row_identifier = ''/work/audio_excerpts/chunk_1.wav'', row_parent_wav = ''talk.wav'',
       row_word = ''test'', row_start_time = 1, row_end_time = 2,
       row_text = ''this is a test''\<rparr>] \<and>
   calls (final (main two_clips)) =
     [(''talk.wav'', fsub (fdiv 100 1000) py_0_2, fadd (fdiv 900 1000) py_0_2, ''/work/audio_excerpts/chunk_0.wav''),
      (''talk.wav'', fdiv 100 1000, fdiv 900 1000, ''/work/audio_excerpts/chunk_0.wav''),
      (''talk.wav'', fsub 1 py_0_2, fadd 2 py_0_2, ''/work/audio_excerpts/chunk_1.wav'')]"
  by (simp add: run_simps two_clips_def)

section \<open>Invariants of a run\<close>

text \<open>The loop at the end of the script comes down to one call of \<open>search_tsv\<close>, on
  the reader after its first data row.\<close>

lemma main_rows_eq:
  "main_rows E f s =
     (case reader s of [] \<Rightarrow> Done s | row # rest \<Rightarrow> search_tsv E f (s\<lparr>reader := rest\<rparr>))"
proof (cases "reader s")
  case Nil
  then show ?thesis by (simp add: main_rows.simps [of E f s])
next
  case (Cons row rest)
  show ?thesis
  proof (cases "search_tsv E f (s\<lparr>reader := rest\<rparr>)")
    case (Done s')
    then have "reader s' = []" by (rule reader_search_tsv)
    then have "main_rows E f s' = Done s'" by (simp add: main_rows.simps [of E f s'])
    with Cons Done show ?thesis by (simp add: main_rows.simps [of E f s])
  next
    case (Raised e s')
    with Cons show ?thesis by (simp add: main_rows.simps [of E f s])
  qed
qed

text \<open>
  A property of the state that every match keeps, and that does not depend on the
  reader, holds in the state a loop ends in, whether it returns or raises. The match
  may be assumed to come from a word of the list and a row of the transcript.
\<close>

lemma search_words_keeps:
  assumes step: "\<And>w s. w \<in> set ws \<Longrightarrow> P s \<Longrightarrow> P (final (extract_match E f w a b t s))"
    and "P s"
  shows "P (final (search_words E f a b t ws s))"
  using assms
proof (induction ws arbitrary: s)
  case Nil
  then show ?case by simp
next
  case (Cons w ws)
  show ?case
  proof (cases "str_in w (lower t)")
    case False
    with Cons show ?thesis by simp
  next
    case True
    have m: "P (final (extract_match E f w a b t s))"
      using Cons.prems by simp
    show ?thesis
    proof (cases "extract_match E f w a b t s")
      case (Done s')
      with m have "P s'" by simp
      then have "P (final (search_words E f a b t ws s'))"
        using Cons.IH Cons.prems(1) by simp
      with True Done show ?thesis by simp
    next
      case (Raised e s')
      with m True show ?thesis by simp
    qed
  qed
qed

lemma search_row_keeps:
  assumes step: "\<And>w a b t s. w \<in> set (STRINGS E) \<Longrightarrow> read_row E row = Inr (a, b, t) \<Longrightarrow>
      P s \<Longrightarrow> P (final (extract_match E f w a b t s))"
    and "P s"
  shows "P (final (search_row E f row s))"
proof (cases "read_row E row")
  case (Inl e)
  with assms(2) show ?thesis by (simp add: search_row_def)
next
  case (Inr p)
  obtain a b t where p: "p = (a, b, t)" by (cases p)
  have "P (final (search_words E f a b t (STRINGS E) s))"
  proof (rule search_words_keeps [where P = P])
    show "P (final (extract_match E f w a b t s'))" if "w \<in> set (STRINGS E)" "P s'" for w s'
      using that Inr p by (intro step) simp_all
    show "P s" by (rule assms(2))
  qed
  with Inr p show ?thesis by (simp add: search_row_def)
qed

lemma search_tsv_keeps:
  assumes step: "\<And>row w a b t s. row \<in> set rows \<Longrightarrow> w \<in> set (STRINGS E) \<Longrightarrow>
      read_row E row = Inr (a, b, t) \<Longrightarrow> P s \<Longrightarrow> P (final (extract_match E f w a b t s))"
    and rd: "\<And>s r. P s \<Longrightarrow> P (s\<lparr>reader := r\<rparr>)"
    and "set (reader s) \<subseteq> set rows"
    and "P s"
  shows "P (final (search_tsv E f s))"
  using assms(3,4)
proof (induction rs \<equiv> "reader s" arbitrary: s)
  case Nil
  then show ?case by (simp add: search_tsv_Nil)
next
  case (Cons row rest)
  let ?s1 = "s\<lparr>reader := rest\<rparr>"
  have rs: "reader s = row # rest" using Cons.hyps(2) by simp
  have row: "row \<in> set rows" and rest: "set rest \<subseteq> set rows"
    using rs Cons.prems(1) by auto
  have r: "P (final (search_row E f row ?s1))"
  proof (rule search_row_keeps [where P = P])
    show "P (final (extract_match E f w a b t s'))"
      if "w \<in> set (STRINGS E)" "read_row E row = Inr (a, b, t)" "P s'" for w a b t s'
      using row that by (rule step)
    show "P ?s1" by (rule rd) (rule Cons.prems(2))
  qed
  show ?case
  proof (cases "search_row E f row ?s1")
    case (Done s')
    from reader_search_row [of E f row ?s1] Done have eq: "rest = reader s'" by simp
    with rest have sub: "set (reader s') \<subseteq> set rows" by simp
    from r Done have "P s'" by simp
    with Cons.hyps(1) [OF eq sub] have "P (final (search_tsv E f s'))" .
    with rs Done show ?thesis by (simp add: search_tsv_Cons)
  next
    case (Raised e s')
    with r rs show ?thesis by (simp add: search_tsv_Cons)
  qed
qed

lemma main_rows_keeps:
  assumes step: "\<And>row w a b t s. row \<in> set rows \<Longrightarrow> w \<in> set (STRINGS E) \<Longrightarrow>
      read_row E row = Inr (a, b, t) \<Longrightarrow> P s \<Longrightarrow> P (final (extract_match E f w a b t s))"
    and rd: "\<And>s r. P s \<Longrightarrow> P (s\<lparr>reader := r\<rparr>)"
    and sub: "set (reader s) \<subseteq> set rows"
    and "P s"
  shows "P (final (main_rows E f s))"
proof (cases "reader s")
  case Nil
  with assms(4) show ?thesis by (simp add: main_rows_eq)
next
  case (Cons row rest)
  have "P (final (search_tsv E f (s\<lparr>reader := rest\<rparr>)))"
  proof (rule search_tsv_keeps [where P = P and rows = rows])
    show "P (final (extract_match E f w a b t s'))"
      if "r \<in> set rows" "w \<in> set (STRINGS E)" "read_row E r = Inr (a, b, t)" "P s'"
      for r w a b t s'
      using that by (rule step)
    show "P (s'\<lparr>reader := r\<rparr>)" if "P s'" for s' r using that by (rule rd)
    show "set (reader (s\<lparr>reader := rest\<rparr>)) \<subseteq> set rows" using sub Cons by auto
    show "P (s\<lparr>reader := rest\<rparr>)" by (rule rd) (rule assms(4))
  qed
  with Cons show ?thesis by (simp add: main_rows_eq)
qed

lemma main_files_keeps:
  assumes step: "\<And>tsv row w a b t s. tsv \<in> set files \<Longrightarrow> row \<in> set (tl (tsv_rows tsv)) \<Longrightarrow>
      w \<in> set (STRINGS E) \<Longrightarrow> read_row E row = Inr (a, b, t) \<Longrightarrow> P s \<Longrightarrow>
      P (final (extract_match E (stem tsv @ ''.wav'') w a b t s))"
    and rd: "\<And>s r. P s \<Longrightarrow> P (s\<lparr>reader := r\<rparr>)"
    and "P s"
  shows "P (final (main_files E files s))"
  using assms(1,3)
proof (induction files arbitrary: s)
  case Nil
  then show ?case by simp
next
  case (Cons tsv others)
  show ?case
  proof (cases "tsv_rows tsv")
    case Nil
    have "P (s\<lparr>reader := []\<rparr>)" by (rule rd) (rule Cons.prems(2))
    with Nil show ?thesis by simp
  next
    case rows: (Cons header rest)
    let ?f = "stem tsv @ ''.wav''"
    have r: "P (final (main_rows E ?f (s\<lparr>reader := rest\<rparr>)))"
    proof (rule main_rows_keeps [where P = P and rows = rest])
      show "P (final (extract_match E ?f w a b t s'))"
        if "r \<in> set rest" "w \<in> set (STRINGS E)" "read_row E r = Inr (a, b, t)" "P s'"
        for r w a b t s'
      proof (rule Cons.prems(1))
        show "tsv \<in> set (tsv # others)" by simp
        show "r \<in> set (tl (tsv_rows tsv))" using that(1) rows by simp
      qed (use that in auto)
      show "P (s'\<lparr>reader := r\<rparr>)" if "P s'" for s' r using that by (rule rd)
      show "set (reader (s\<lparr>reader := rest\<rparr>)) \<subseteq> set rest" by simp
      show "P (s\<lparr>reader := rest\<rparr>)" by (rule rd) (rule Cons.prems(2))
    qed
    show ?thesis
    proof (cases "main_rows E ?f (s\<lparr>reader := rest\<rparr>)")
      case (Done s')
      with r have "P s'" by simp
      have "P (final (main_files E others s'))"
      proof (rule Cons.IH)
        show "P (final (extract_match E (stem g @ ''.wav'') w a b t s0))"
          if "g \<in> set others" "r \<in> set (tl (tsv_rows g))" "w \<in> set (STRINGS E)"
            "read_row E r = Inr (a, b, t)" "P s0" for g r w a b t s0
        proof (rule Cons.prems(1))
          show "g \<in> set (tsv # others)" using that(1) by simp
        qed (use that in auto)
        show "P s'" by fact
      qed
      with rows Done show ?thesis by simp
    next
      case (Raised e s')
      with r rows show ?thesis by simp
    qed
  qed
qed

lemma main_keeps:
  assumes step: "\<And>tsv row w a b t s. tsv \<in> set (tsvs E) \<Longrightarrow>
      row \<in> set (tl (tsv_rows tsv)) \<Longrightarrow> w \<in> set (STRINGS E) \<Longrightarrow>
      read_row E row = Inr (a, b, t) \<Longrightarrow> P s \<Longrightarrow>
      P (final (extract_match E (stem tsv @ ''.wav'') w a b t s))"
    and rd: "\<And>s r. P s \<Longrightarrow> P (s\<lparr>reader := r\<rparr>)"
    and "P (initial E)"
  shows "P (final (main E))"
  unfolding main_def
proof (rule main_files_keeps [where P = P])
  show "P (final (extract_match E (stem tsv @ ''.wav'') w a b t s))"
    if "tsv \<in> set (tsvs E)" "row \<in> set (tl (tsv_rows tsv))" "w \<in> set (STRINGS E)"
      "read_row E row = Inr (a, b, t)" "P s" for tsv row w a b t s
    using that by (rule step)
  show "P (s\<lparr>reader := r\<rparr>)" if "P s" for s r using that by (rule rd)
  show "P (initial E)" by fact
qed

section \<open>The identifiers\<close>

text \<open>What a match adds to output.tsv and to the counter: one row and one, or nothing.\<close>

lemma output_extracted_extract_audio:
  "output_tsv (final (extract_audio E f a b d s)) = output_tsv s \<and>
   unique_id (final (extract_audio E f a b d s)) = unique_id s \<and>
   extracted (final (extract_audio E f a b d s)) =
     (if completed (extract_audio E f a b d s) then extracted s @ [d] else extracted s)"
  by (simp add: extract_audio_def Let_def split: option.splits sum.splits)

lemma extract_match_output:
  "(completed (extract_match E f w a b t s) \<longrightarrow>
      output_tsv (final (extract_match E f w a b t s)) =
        output_tsv s @
          [\<lparr>row_identifier = dest_wav_filename E (unique_id s), row_parent_wav = f,
            row_word = w, row_start_time = a, row_end_time = b, row_text = t\<rparr>] \<and>
      unique_id (final (extract_match E f w a b t s)) = unique_id s + 1 \<and>
      extracted (final (extract_match E f w a b t s)) =
        extracted s @ [dest_wav_filename E (unique_id s)]) \<and>
   (\<not> completed (extract_match E f w a b t s) \<longrightarrow>
      output_tsv (final (extract_match E f w a b t s)) = output_tsv s \<and>
      unique_id (final (extract_match E f w a b t s)) = unique_id s \<and>
      extracted (final (extract_match E f w a b t s)) = extracted s)"
proof -
  let ?d = "dest_wav_filename E (unique_id s)"
  let ?o1 = "extract_audio E f (fsub a py_0_2) (fadd b py_0_2) ?d s"
  let ?o2 = "extract_audio E f a b ?d (final ?o1)"
  have e: "extracted (write_row ?d f w a b t s') = extracted s'" for s'
    by (simp add: write_row_def)
  have 1: "output_tsv (final ?o1) = output_tsv s \<and> unique_id (final ?o1) = unique_id s \<and>
      extracted (final ?o1) = (if completed ?o1 then extracted s @ [?d] else extracted s)"
    by (rule output_extracted_extract_audio)
  have 2: "output_tsv (final ?o2) = output_tsv (final ?o1) \<and>
      unique_id (final ?o2) = unique_id (final ?o1) \<and>
      extracted (final ?o2) =
        (if completed ?o2 then extracted (final ?o1) @ [?d] else extracted (final ?o1))"
    by (rule output_extracted_extract_audio)
  from 1 2 show ?thesis
    by (simp add: extract_match_unfold [of E f w a b t s] Let_def write_row_def)
qed

text \<open>The decimal digits of a number give the number back.\<close>

lemma digit_val_digit_char: "d < 10 \<Longrightarrow> digit_val (digit_char d) = Some d"
proof -
  assume "d < 10"
  then have "d = 0 \<or> d = 1 \<or> d = 2 \<or> d = 3 \<or> d = 4 \<or> d = 5 \<or> d = 6 \<or> d = 7 \<or> d = 8 \<or> d = 9"
    by arith
  then show ?thesis
    by (elim disjE) (simp_all add: digit_val_def digit_char_def)
qed

lemma dec_nat_append:
  "dec_nat acc (xs @ ys) = (case dec_nat acc xs of None \<Rightarrow> None | Some a \<Rightarrow> dec_nat a ys)"
  by (induction xs arbitrary: acc) (auto split: option.splits)

lemma dec_nat_str_nat: "dec_nat 0 (str_nat n) = Some n"
proof (induction n rule: str_nat.induct)
  case (1 n)
  show ?case
  proof (cases "n < 10")
    case True
    then show ?thesis
      by (simp add: str_nat.simps [of n] digit_val_digit_char)
  next
    case False
    have "n mod 10 < 10" by simp
    then have d: "digit_val (digit_char (n mod 10)) = Some (n mod 10)"
      by (rule digit_val_digit_char)
    from False "1.IH" have "dec_nat 0 (str_nat (n div 10)) = Some (n div 10)" by simp
    with False d show ?thesis
      by (simp add: str_nat.simps [of n] dec_nat_append)
  qed
qed

lemma str_nat_inj: "str_nat i = str_nat j \<Longrightarrow> i = j"
proof -
  assume "str_nat i = str_nat j"
  then have "dec_nat 0 (str_nat i) = dec_nat 0 (str_nat j)" by simp
  then show "i = j" by (simp add: dec_nat_str_nat)
qed

lemma dest_wav_filename_inj: "inj (dest_wav_filename E)"
  by (rule injI) (simp add: dest_wav_filename_def str_nat_inj)

text \<open>The extractions that succeeded so far went to the paths of the identifiers below
  the counter, in this order, and the rows written so far carry these paths.\<close>

definition numbered :: "env \<Rightarrow> state \<Rightarrow> bool" where
  "numbered E s \<longleftrightarrow>
     extracted s = map (dest_wav_filename E) [0..<unique_id s] \<and>
     map row_identifier (output_tsv s) = extracted s"

lemma numbered_extract_match:
  assumes "numbered E s"
  shows "numbered E (final (extract_match E f w a b t s))"
proof (cases "completed (extract_match E f w a b t s)")
  case True
  with extract_match_output [of E f w a b t s]
  have "output_tsv (final (extract_match E f w a b t s)) =
        output_tsv s @
          [\<lparr>row_identifier = dest_wav_filename E (unique_id s), row_parent_wav = f,
            row_word = w, row_start_time = a, row_end_time = b, row_text = t\<rparr>]"
    and "unique_id (final (extract_match E f w a b t s)) = unique_id s + 1"
    and "extracted (final (extract_match E f w a b t s)) =
        extracted s @ [dest_wav_filename E (unique_id s)]"
    by simp_all
  with assms show ?thesis by (simp add: numbered_def)
next
  case False
  with extract_match_output [of E f w a b t s]
  have "output_tsv (final (extract_match E f w a b t s)) = output_tsv s"
    and "unique_id (final (extract_match E f w a b t s)) = unique_id s"
    and "extracted (final (extract_match E f w a b t s)) = extracted s"
    by simp_all
  with assms show ?thesis by (simp add: numbered_def)
qed

text \<open>Every metadata row names a clip that is in the excerpt directory.\<close>

definition clips_written :: "state \<Rightarrow> bool" where
  "clips_written s \<longleftrightarrow> list_all (\<lambda>m. audio_excerpts s (row_identifier m) \<noteq> None) (output_tsv s)"

lemma excerpts_extract_audio:
  "(audio_excerpts s x \<noteq> None \<longrightarrow> audio_excerpts (final (extract_audio E f a b d s)) x \<noteq> None) \<and>
   (completed (extract_audio E f a b d s) \<longrightarrow>
      audio_excerpts (final (extract_audio E f a b d s)) d \<noteq> None)"
  by (simp add: extract_audio_def Let_def split: option.splits sum.splits)

lemma excerpts_extract_match:
  "(audio_excerpts s x \<noteq> None \<longrightarrow>
      audio_excerpts (final (extract_match E f w a b t s)) x \<noteq> None) \<and>
   (completed (extract_match E f w a b t s) \<longrightarrow>
      audio_excerpts (final (extract_match E f w a b t s)) (dest_wav_filename E (unique_id s))
        \<noteq> None)"
proof -
  let ?d = "dest_wav_filename E (unique_id s)"
  let ?o1 = "extract_audio E f (fsub a py_0_2) (fadd b py_0_2) ?d s"
  let ?o2 = "extract_audio E f a b ?d (final ?o1)"
  have e: "audio_excerpts (write_row ?d f w a b t s') = audio_excerpts s'" for s'
    by (simp add: write_row_def)
  from excerpts_extract_audio [of s x E f "fsub a py_0_2" "fadd b py_0_2" ?d]
    excerpts_extract_audio [of "final ?o1" x E f a b ?d]
    excerpts_extract_audio [of "final ?o1" ?d E f a b ?d]
  show ?thesis
    by (simp add: extract_match_unfold [of E f w a b t s] Let_def e)
qed

lemma clips_written_extract_match:
  assumes "clips_written s"
  shows "clips_written (final (extract_match E f w a b t s))"
proof -
  let ?m = "extract_match E f w a b t s"
  have old: "list_all (\<lambda>m. audio_excerpts (final ?m) (row_identifier m) \<noteq> None) (output_tsv s)"
    using assms excerpts_extract_match [of s _ E f w a b t]
    by (simp add: clips_written_def list_all_iff)
  show ?thesis
  proof (cases "completed ?m")
    case True
    with extract_match_output [of E f w a b t s]
    have out: "output_tsv (final ?m) = output_tsv s @
          [\<lparr>row_identifier = dest_wav_filename E (unique_id s), row_parent_wav = f,
            row_word = w, row_start_time = a, row_end_time = b, row_text = t\<rparr>]"
      by simp
    from True excerpts_extract_match [of s _ E f w a b t]
    have "audio_excerpts (final ?m) (dest_wav_filename E (unique_id s)) \<noteq> None" by simp
    with old out show ?thesis by (simp add: clips_written_def)
  next
    case False
    with extract_match_output [of E f w a b t s]
    have "output_tsv (final ?m) = output_tsv s" by simp
    with old show ?thesis by (simp add: clips_written_def)
  qed
qed

text \<open>
  Claim C7. In the state a run ends in, whether it completes or stops on an
  exception, the extractions that succeeded went, in this order, to the clip paths made
  from the identifiers 0, 1, 2, ...: one counter for all transcripts, increased by one
  with each extraction that succeeds, never reset. Every one of them has its metadata
  row, in the same order and with the same path; the final counter is their number;
  the clip of every row is in the excerpt directory; and different identifiers give
  different paths, so no path occurs twice.
\<close>

theorem identifiers_count_up:
  "extracted (final (main E)) =
     map (dest_wav_filename E) [0..<length (extracted (final (main E)))] \<and>
   map row_identifier (output_tsv (final (main E))) = extracted (final (main E)) \<and>
   map row_identifier (output_tsv (final (main E))) =
     map (dest_wav_filename E) [0..<length (output_tsv (final (main E)))] \<and>
   unique_id (final (main E)) = length (output_tsv (final (main E))) \<and>
   distinct (map row_identifier (output_tsv (final (main E)))) \<and>
   inj (dest_wav_filename E) \<and>
   list_all (\<lambda>m. audio_excerpts (final (main E)) (row_identifier m) \<noteq> None)
     (output_tsv (final (main E)))"
proof -
  have n: "numbered E (final (main E))"
  proof (rule main_keeps [where P = "numbered E"])
    show "numbered E (final (extract_match E (stem tsv @ ''.wav'') w a b t s))"
      if "numbered E s" for tsv w a b t s
      using that by (rule numbered_extract_match)
    show "numbered E (s\<lparr>reader := r\<rparr>)" if "numbered E s" for s r
      using that by (simp add: numbered_def)
    show "numbered E (initial E)" by (simp add: numbered_def initial_def)
  qed
  have c: "clips_written (final (main E))"
  proof (rule main_keeps [where P = clips_written])
    show "clips_written (final (extract_match E (stem tsv @ ''.wav'') w a b t s))"
      if "clips_written s" for tsv w a b t s
      using that by (rule clips_written_extract_match)
    show "clips_written (s\<lparr>reader := r\<rparr>)" if "clips_written s" for s r
      using that by (simp add: clips_written_def)
    show "clips_written (initial E)" by (simp add: clips_written_def initial_def)
  qed
  let ?s = "final (main E)"
  from n have x: "extracted ?s = map (dest_wav_filename E) [0..<unique_id ?s]"
    and r: "map row_identifier (output_tsv ?s) = extracted ?s"
    by (simp_all add: numbered_def)
  from x have "length (extracted ?s) = length (map (dest_wav_filename E) [0..<unique_id ?s])"
    by simp
  then have lx: "unique_id ?s = length (extracted ?s)" by simp
  from r have "length (map row_identifier (output_tsv ?s)) = length (extracted ?s)" by simp
  with lx have len: "unique_id ?s = length (output_tsv ?s)" by simp
  have "distinct (map (dest_wav_filename E) [0..<unique_id ?s])"
    by (simp add: distinct_map inj_on_def str_nat_inj dest_wav_filename_def)
  with x r have dist: "distinct (map row_identifier (output_tsv ?s))" by simp
  from c have cl: "list_all (\<lambda>m. audio_excerpts ?s (row_identifier m) \<noteq> None) (output_tsv ?s)"
    by (simp add: clips_written_def)
  have 1: "extracted ?s = map (dest_wav_filename E) [0..<length (extracted ?s)]"
    using x lx by simp
  have 3: "map row_identifier (output_tsv ?s) =
      map (dest_wav_filename E) [0..<length (output_tsv ?s)]"
    using x r len by simp
  show ?thesis
    by (intro conjI) (rule 1, rule r, rule 3, rule len, rule dist,
      rule dest_wav_filename_inj, rule cl)
qed

text \<open>The run over the transcript of three data rows makes two extractions, to
  \<open>chunk_0.wav\<close> and \<open>chunk_1.wav\<close>, and ends with the counter at 2.\<close>

theorem identifiers_count_up_witness:
  "completed (main two_clips) \<and>
   extracted (final (main two_clips)) =
     [''/work/audio_excerpts/chunk_0.wav'', ''/work/audio_excerpts/chunk_1.wav''] \<and>
   map row_identifier (output_tsv (final (main two_clips))) =
     [dest_wav_filename two_clips 0, dest_wav_filename two_clips 1] \<and>
   unique_id (final (main two_clips)) = 2"
proof -
  have up: "[0..<2] = [0, Suc 0]" by (simp add: upt_rec)
  from identifiers_count_up [of two_clips] show ?thesis
    by (auto simp add: two_clips_run up)
qed

section \<open>The metadata rows\<close>

lemma read_row_Inr:
  assumes "read_row E row = Inr (a, b, t)"
  shows "\<exists>x y. 3 \<le> length row \<and> py_float E (row ! 0) = Some x \<and>
           py_float E (row ! 1) = Some y \<and> a = fdiv x 1000 \<and> b = fdiv y 1000 \<and> t = row ! 2"
  using assms
  by (auto simp: read_row_def split: list.splits option.splits)

text \<open>A metadata row that records a data row of a transcript of the directory: the two
  millisecond cells divided by 1000, the text cell, the wav named after the transcript,
  and a word of the list.\<close>

definition records_row :: "env \<Rightarrow> metadata_row \<Rightarrow> bool" where
  "records_row E m \<longleftrightarrow>
     (\<exists>tsv \<in> set (tsvs E). \<exists>row \<in> set (tl (tsv_rows tsv)). \<exists>x y.
        3 \<le> length row \<and> py_float E (row ! 0) = Some x \<and> py_float E (row ! 1) = Some y \<and>
        row_start_time m = fdiv x 1000 \<and> row_end_time m = fdiv y 1000 \<and> row_text m = row ! 2 \<and>
        row_parent_wav m = stem tsv @ ''.wav'' \<and> row_word m \<in> set (STRINGS E))"

lemma records_row_extract_match:
  assumes "tsv \<in> set (tsvs E)" and "row \<in> set (tl (tsv_rows tsv))" and "w \<in> set (STRINGS E)"
    and "read_row E row = Inr (a, b, t)"
    and "list_all (records_row E) (output_tsv s)"
  shows "list_all (records_row E)
           (output_tsv (final (extract_match E (stem tsv @ ''.wav'') w a b t s)))"
proof -
  let ?f = "stem tsv @ ''.wav''"
  let ?m = "\<lparr>row_identifier = dest_wav_filename E (unique_id s), row_parent_wav = ?f,
            row_word = w, row_start_time = a, row_end_time = b, row_text = t\<rparr>"
  from read_row_Inr [OF assms(4)] obtain x y where
    "3 \<le> length row" "py_float E (row ! 0) = Some x" "py_float E (row ! 1) = Some y"
    "a = fdiv x 1000" "b = fdiv y 1000" "t = row ! 2" by blast
  with assms(1,2,3) have "records_row E ?m"
    unfolding records_row_def by (intro bexI [of _ tsv] bexI [of _ row] exI [of _ x] exI [of _ y]) simp_all
  with assms(5) extract_match_output [of E ?f w a b t s] show ?thesis
    by (cases "completed (extract_match E ?f w a b t s)") simp_all
qed

text \<open>
  Claim C9. Every metadata row in output.tsv, in the state a run ends in, records a data
  row of a transcript of the directory: its start and end time are that row's
  millisecond cells divided by 1000, its text is the row's text, its parent wav is named
  after the transcript. The row is written with these values after the padded call
  as well as after the fallback, so this holds whichever of the two made the clip:
  what is written are the times read from the transcript, not the bounds of the padded
  window computed from them, which are other numbers for every time below \<open>2^50\<close>
  seconds (beyond that, 0.2 is less than half the distance between two floats).
\<close>

theorem metadata_has_transcript_times:
  "\<forall>m \<in> set (output_tsv (final (main E))).
     \<exists>tsv \<in> set (tsvs E). \<exists>row \<in> set (tl (tsv_rows tsv)). \<exists>x y.
        3 \<le> length row \<and> py_float E (row ! 0) = Some x \<and> py_float E (row ! 1) = Some y \<and>
        row_start_time m = fdiv x 1000 \<and> row_end_time m = fdiv y 1000 \<and> row_text m = row ! 2 \<and>
        row_parent_wav m = stem tsv @ ''.wav'' \<and> row_word m \<in> set (STRINGS E) \<and>
        (\<bar>row_start_time m\<bar> < 2 ^ 50 \<longrightarrow>
           row_start_time m \<noteq> fsub (row_start_time m) py_0_2) \<and>
        (\<bar>row_end_time m\<bar> < 2 ^ 50 \<longrightarrow>
           row_end_time m \<noteq> fadd (row_end_time m) py_0_2)"
proof -
  have "list_all (records_row E) (output_tsv (final (main E)))"
  proof (rule main_keeps [where P = "\<lambda>s. list_all (records_row E) (output_tsv s)"])
    show "list_all (records_row E)
        (output_tsv (final (extract_match E (stem tsv @ ''.wav'') w a b t s)))"
      if "tsv \<in> set (tsvs E)" "row \<in> set (tl (tsv_rows tsv))" "w \<in> set (STRINGS E)"
        "read_row E row = Inr (a, b, t)" "list_all (records_row E) (output_tsv s)"
      for tsv row w a b t s
      using that by (rule records_row_extract_match)
    show "list_all (records_row E) (output_tsv (s\<lparr>reader := r\<rparr>))"
      if "list_all (records_row E) (output_tsv s)" for s r
      using that by simp
    show "list_all (records_row E) (output_tsv (initial E))" by (simp add: initial_def)
  qed
  then have all: "\<forall>m \<in> set (output_tsv (final (main E))). records_row E m"
    by (simp add: list_all_iff)
  show ?thesis
  proof (intro ballI)
    fix m
    assume "m \<in> set (output_tsv (final (main E)))"
    with all have "records_row E m" by blast
    then obtain tsv row x y where "tsv \<in> set (tsvs E)" "row \<in> set (tl (tsv_rows tsv))"
      and "3 \<le> length row \<and> py_float E (row ! 0) = Some x \<and> py_float E (row ! 1) = Some y \<and>
        row_start_time m = fdiv x 1000 \<and> row_end_time m = fdiv y 1000 \<and>
        row_text m = row ! 2 \<and> row_parent_wav m = stem tsv @ ''.wav'' \<and>
        row_word m \<in> set (STRINGS E)"
      unfolding records_row_def by blast
    moreover have "\<bar>row_start_time m\<bar> < 2 ^ 50 \<longrightarrow>
        row_start_time m \<noteq> fsub (row_start_time m) py_0_2"
      using padding_moves [of "row_start_time m"] by auto
    moreover have "\<bar>row_end_time m\<bar> < 2 ^ 50 \<longrightarrow>
        row_end_time m \<noteq> fadd (row_end_time m) py_0_2"
      using padding_moves [of "row_end_time m"] by auto
    ultimately show "\<exists>tsv \<in> set (tsvs E). \<exists>row \<in> set (tl (tsv_rows tsv)). \<exists>x y.
        3 \<le> length row \<and> py_float E (row ! 0) = Some x \<and> py_float E (row ! 1) = Some y \<and>
        row_start_time m = fdiv x 1000 \<and> row_end_time m = fdiv y 1000 \<and> row_text m = row ! 2 \<and>
        row_parent_wav m = stem tsv @ ''.wav'' \<and> row_word m \<in> set (STRINGS E) \<and>
        (\<bar>row_start_time m\<bar> < 2 ^ 50 \<longrightarrow>
           row_start_time m \<noteq> fsub (row_start_time m) py_0_2) \<and>
        (\<bar>row_end_time m\<bar> < 2 ^ 50 \<longrightarrow>
           row_end_time m \<noteq> fadd (row_end_time m) py_0_2)"
      by blast
  qed
qed

text \<open>Both rows of that run, the one cut by the fallback and the one cut by the padded
  call, carry the times of their transcript rows.\<close>

theorem metadata_has_transcript_times_witness:
  "map row_text (output_tsv (final (main two_clips))) = [''Hello world'', ''this is a test''] \<and>
   (\<exists>tsv \<in> set (tsvs two_clips). \<exists>row \<in> set (tl (tsv_rows tsv)). \<exists>x y.
      py_float two_clips (row ! 0) = Some x \<and> py_float two_clips (row ! 1) = Some y \<and>
      fdiv 100 1000 = fdiv x 1000 \<and> fdiv 900 1000 = fdiv y 1000 \<and> ''Hello world'' = row ! 2) \<and>
   (\<exists>tsv \<in> set (tsvs two_clips). \<exists>row \<in> set (tl (tsv_rows tsv)). \<exists>x y.
      py_float two_clips (row ! 0) = Some x \<and> py_float two_clips (row ! 1) = Some y \<and>
      (1 :: real) = fdiv x 1000 \<and> (2 :: real) = fdiv y 1000 \<and> ''this is a test'' = row ! 2) \<and>
   fdiv 100 1000 \<noteq> fsub (fdiv 100 1000) py_0_2 \<and>
   fdiv 900 1000 \<noteq> fadd (fdiv 900 1000) py_0_2"
proof -
  let ?m0 = "\<lparr>row_identifier = ''/work/audio_excerpts/chunk_0.wav'', row_parent_wav = ''talk.wav'',
       row_word = ''hello'', row_start_time = fdiv 100 1000, row_end_time = fdiv 900 1000,
       row_text = ''Hello world''\<rparr>"
  let ?m1 = "\<lparr>row_identifier = ''/work/audio_excerpts/chunk_1.wav'', row_parent_wav = ''talk.wav'',
       row_word = ''test'', row_start_time = 1, row_end_time = 2,
       row_text = ''this is a test''\<rparr>"
  have m0: "?m0 \<in> set (output_tsv (final (main two_clips)))"
    and m1: "?m1 \<in> set (output_tsv (final (main two_clips)))"
    by (simp_all add: two_clips_run)
  have small: "\<bar>fdiv 100 1000\<bar> < 2 ^ 50" "\<bar>fdiv 900 1000\<bar> < 2 ^ 50"
    by (simp_all add: float_simps)
  have run: "map row_text (output_tsv (final (main two_clips))) =
      [''Hello world'', ''this is a test'']"
    by (simp add: two_clips_run)
  from metadata_has_transcript_times [of two_clips, THEN bspec, OF m0]
    metadata_has_transcript_times [of two_clips, THEN bspec, OF m1] small run
  show ?thesis by simp blast
qed

section \<open>A transcript without its wav\<close>

text \<open>A row of the transcript has a match: it parses and some word of the list occurs
  in its lower-cased text.\<close>

definition row_matches :: "env \<Rightarrow> string list \<Rightarrow> bool" where
  "row_matches E row =
     (case read_row E row of
        Inl e \<Rightarrow> False
      | Inr (start_time, end_time, text) \<Rightarrow> list_ex (\<lambda>word. str_in word (lower text)) (STRINGS E))"

lemma extract_match_no_wav:
  assumes "wav_files E f = None"
  shows "extract_match E f w a b t s =
           Raised FileNotFoundError
             (s\<lparr>calls := calls s @
                [(f, fsub a py_0_2, fadd b py_0_2, dest_wav_filename E (unique_id s)),
                 (f, a, b, dest_wav_filename E (unique_id s))]\<rparr>)"
  using assms by (simp add: extract_match_def extract_audio_None Let_def)

lemma search_words_no_wav:
  assumes "wav_files E f = None"
  shows "search_words E f a b t ws s =
           (if list_ex (\<lambda>w. str_in w (lower t)) ws
            then Raised FileNotFoundError
                   (s\<lparr>calls := calls s @
                      [(f, fsub a py_0_2, fadd b py_0_2, dest_wav_filename E (unique_id s)),
                       (f, a, b, dest_wav_filename E (unique_id s))]\<rparr>)
            else Done s)"
  using assms by (induction ws) (simp_all add: extract_match_no_wav)

lemma search_row_no_wav:
  assumes "wav_files E f = None"
  shows "search_row E f row s =
           (case read_row E row of
              Inl e \<Rightarrow> Raised e s
            | Inr (a, b, t) \<Rightarrow>
                if row_matches E row
                then Raised FileNotFoundError
                       (s\<lparr>calls := calls s @
                          [(f, fsub a py_0_2, fadd b py_0_2, dest_wav_filename E (unique_id s)),
                           (f, a, b, dest_wav_filename E (unique_id s))]\<rparr>)
                else Done s)"
  using assms
  by (simp add: search_row_def row_matches_def search_words_no_wav split: sum.splits prod.splits)

text \<open>
  Claim C6, as the code has it. Nothing in the script looks whether the wav of a
  transcript exists; the wav is opened only when a match is cut. So for a transcript
  whose wav is missing, \<open>search_tsv\<close> returns exactly when every row it reads parses
  and none has a match: then the transcript is passed over without any error. When the
  rows parse and one of them has a match, the first match stops the run with
  FileNotFoundError (the padded call and the retry both raise it). Either way nothing
  is written for this transcript: no metadata row, no clip, no identifier used.
\<close>

theorem missing_wav_aborts_at_first_match:
  assumes "wav_files E f = None"
  shows "completed (search_tsv E f s) =
           list_all (\<lambda>row. \<not> isl (read_row E row) \<and> \<not> row_matches E row) (reader s) \<and>
         (list_all (\<lambda>row. \<not> isl (read_row E row)) (reader s) \<and>
          list_ex (row_matches E) (reader s) \<longrightarrow>
            (\<exists>s'. search_tsv E f s = Raised FileNotFoundError s')) \<and>
         output_tsv (final (search_tsv E f s)) = output_tsv s \<and>
         unique_id (final (search_tsv E f s)) = unique_id s \<and>
         audio_excerpts (final (search_tsv E f s)) = audio_excerpts s"
proof (induction rs \<equiv> "reader s" arbitrary: s)
  case Nil
  then show ?case by (simp add: search_tsv_Nil)
next
  case (Cons row rest)
  have rs: "reader s = row # rest" using Cons.hyps(2) by simp
  let ?s1 = "s\<lparr>reader := rest\<rparr>"
  show ?case
  proof (cases "read_row E row")
    case (Inl e)
    then have "search_row E f row ?s1 = Raised e ?s1"
      using assms by (simp add: search_row_no_wav)
    with rs Inl show ?thesis by (simp add: search_tsv_Cons)
  next
    case (Inr p)
    obtain a b t where p: "p = (a, b, t)" by (cases p)
    show ?thesis
    proof (cases "row_matches E row")
      case True
      with Inr p have "search_row E f row ?s1 =
          Raised FileNotFoundError
            (?s1\<lparr>calls := calls ?s1 @
               [(f, fsub a py_0_2, fadd b py_0_2, dest_wav_filename E (unique_id ?s1)),
                (f, a, b, dest_wav_filename E (unique_id ?s1))]\<rparr>)"
        using assms by (simp add: search_row_no_wav)
      with rs Inr True show ?thesis by (simp add: search_tsv_Cons)
    next
      case False
      with Inr p have d: "search_row E f row ?s1 = Done ?s1"
        using assms by (simp add: search_row_no_wav)
      have "rest = reader ?s1" by simp
      from Cons.hyps(1) [OF this] rs Inr False d show ?thesis
        by (simp add: search_tsv_Cons)
    qed
  qed
qed

text \<open>A transcript whose wav is missing. No row of it contains the word.\<close>

definition no_wav :: env where
  "no_wav =
     \<lparr>STRINGS = [''hello''], AUDIO_EXCERPTS = ''/work/audio_excerpts'',
      wav_files = Map.empty,
      tsvs = [\<lparr>stem = ''talk'',
               tsv_rows = [[''start'', ''end'', ''text''],
                           [''0'', ''90'', ''Welcome''],
                           [''100'', ''900'', ''Good morning'']]\<rparr>],
      old_excerpts = Map.empty, py_float = float_digits\<rparr>"

text \<open>Against claim C6 as stated: the run over this directory completes, with only the
  header in output.tsv, although \<open>talk.wav\<close> does not exist.\<close>

theorem missing_wav_passed_over_counterexample:
  "wav_files no_wav ''talk.wav'' = None \<and>
   main no_wav = Done (initial no_wav) \<and>
   output_tsv (initial no_wav) = []"
  by (simp add: run_simps no_wav_def)

text \<open>The same directory, reading a row that contains the word: FileNotFoundError.\<close>

theorem missing_wav_aborts_witness:
  "\<exists>s'. search_tsv no_wav ''talk.wav''
      ((initial no_wav)\<lparr>reader := [[''100'', ''900'', ''Hello world'']]\<rparr>) =
        Raised FileNotFoundError s'"
proof -
  have w: "wav_files no_wav ''talk.wav'' = None" by (simp add: no_wav_def)
  have r: "read_row no_wav [''100'', ''900'', ''Hello world''] = Inr (fdiv 100 1000, fdiv 900 1000, ''Hello world'')"
    by (simp add: read_row_def no_wav_def float_digits_def digit_val_def float_simps)
  have m: "row_matches no_wav [''100'', ''900'', ''Hello world'']"
    unfolding row_matches_def r by (simp add: no_wav_def lower_def lower_char_def)
  from missing_wav_aborts_at_first_match [OF w,
      of "(initial no_wav)\<lparr>reader := [[''100'', ''900'', ''Hello world'']]\<rparr>"]
  show ?thesis using r m by simp
qed

section \<open>The first data row of a transcript\<close>

text \<open>
  The match events of a row, in the order of the word list: one for each word that
  occurs in the lower-cased text, as often as the word is in the list. A metadata row
  without its clip path is such an event.
\<close>

type_synonym event = "string \<times> string \<times> real \<times> real \<times> string"

definition row_events :: "env \<Rightarrow> string \<Rightarrow> string list \<Rightarrow> event list" where
  "row_events E wav_filename row =
     (case read_row E row of
        Inl e \<Rightarrow> []
      | Inr (start_time, end_time, text) \<Rightarrow>
          map (\<lambda>word. (wav_filename, word, start_time, end_time, text))
            (filter (\<lambda>word. str_in word (lower text)) (STRINGS E)))"

definition event_of :: "metadata_row \<Rightarrow> event" where
  "event_of m = (row_parent_wav m, row_word m, row_start_time m, row_end_time m, row_text m)"

lemma search_words_events:
  assumes "completed (search_words E f a b t ws s)"
  shows "map event_of (output_tsv (final (search_words E f a b t ws s))) =
           map event_of (output_tsv s) @
           map (\<lambda>w. (f, w, a, b, t)) (filter (\<lambda>w. str_in w (lower t)) ws)"
  using assms
proof (induction ws arbitrary: s)
  case Nil
  then show ?case by simp
next
  case (Cons w ws)
  show ?case
  proof (cases "str_in w (lower t)")
    case False
    with Cons show ?thesis by simp
  next
    case True
    show ?thesis
    proof (cases "extract_match E f w a b t s")
      case (Done s')
      with extract_match_output [of E f w a b t s]
      have out: "output_tsv s' = output_tsv s @
          [\<lparr>row_identifier = dest_wav_filename E (unique_id s), row_parent_wav = f,
            row_word = w, row_start_time = a, row_end_time = b, row_text = t\<rparr>]"
        by simp
      from Cons.prems True Done have "completed (search_words E f a b t ws s')" by simp
      from Cons.IH [OF this] True Done out show ?thesis by (simp add: event_of_def)
    next
      case (Raised e s')
      with Cons.prems True show ?thesis by simp
    qed
  qed
qed

lemma search_row_events:
  assumes "completed (search_row E f row s)"
  shows "map event_of (output_tsv (final (search_row E f row s))) =
           map event_of (output_tsv s) @ row_events E f row"
proof (cases "read_row E row")
  case (Inl e)
  with assms show ?thesis by (simp add: search_row_def)
next
  case (Inr p)
  obtain a b t where p: "p = (a, b, t)" by (cases p)
  from assms Inr p have "completed (search_words E f a b t (STRINGS E) s)"
    by (simp add: search_row_def)
  from search_words_events [OF this] Inr p show ?thesis
    by (simp add: search_row_def row_events_def)
qed

lemma search_tsv_events:
  assumes "completed (search_tsv E f s)"
  shows "map event_of (output_tsv (final (search_tsv E f s))) =
           map event_of (output_tsv s) @ concat (map (row_events E f) (reader s))"
  using assms
proof (induction rs \<equiv> "reader s" arbitrary: s)
  case Nil
  then show ?case by (simp add: search_tsv_Nil)
next
  case (Cons row rest)
  have rs: "reader s = row # rest" using Cons.hyps(2) by simp
  let ?s1 = "s\<lparr>reader := rest\<rparr>"
  show ?case
  proof (cases "search_row E f row ?s1")
    case (Done s')
    from reader_search_row [of E f row ?s1] Done have eq: "rest = reader s'" by simp
    from Done have "completed (search_row E f row ?s1)" by simp
    from search_row_events [OF this] Done
    have out: "map event_of (output_tsv s') = map event_of (output_tsv s) @ row_events E f row"
      by simp
    from Cons.prems rs Done have "completed (search_tsv E f s')"
      by (simp add: search_tsv_Cons)
    from Cons.hyps(1) [OF eq this] rs Done out eq show ?thesis
      by (simp add: search_tsv_Cons)
  next
    case (Raised e s')
    with Cons.prems rs show ?thesis by (simp add: search_tsv_Cons)
  qed
qed

text \<open>The loop at the end of the script writes the events of the data rows but the
  first.\<close>

lemma main_rows_events:
  assumes "completed (main_rows E f s)"
  shows "map event_of (output_tsv (final (main_rows E f s))) =
           map event_of (output_tsv s) @ concat (map (row_events E f) (tl (reader s)))"
proof (cases "reader s")
  case Nil
  then show ?thesis by (simp add: main_rows_eq)
next
  case (Cons row rest)
  with assms have "completed (search_tsv E f (s\<lparr>reader := rest\<rparr>))"
    by (simp add: main_rows_eq)
  from search_tsv_events [OF this] Cons show ?thesis by (simp add: main_rows_eq)
qed

text \<open>Two target words and a transcript of two data rows beside the five-second wav.
  The first data row contains both words, the second one of them.\<close>

definition first_row :: env where
  "first_row =
     \<lparr>STRINGS = [''cat'', ''con''], AUDIO_EXCERPTS = ''/work/audio_excerpts'',
      wav_files = [''talk.wav'' \<mapsto> silence 8000 40000],
      tsvs = [\<lparr>stem = ''talk'',
               tsv_rows = [[''start'', ''end'', ''text''],
                           [''0'', ''1500'', ''Concatenate the files''],
                           [''2000'', ''3000'', ''A cat sat'']]\<rparr>],
      old_excerpts = Map.empty, py_float = float_digits\<rparr>"

text \<open>
  Claim C1 asks for every data row after the header to be read and searched. The run
  over \<open>first_row\<close> writes one metadata row, for the second data row. The first data
  row, which contains both words, is taken by the \<open>for\<close> at the end of the script
  and never reaches \<open>search_tsv\<close>, which reads on from the same reader
  (\<open>main_rows_eq\<close>, \<open>main_rows_events\<close>). \<open>search_tsv\<close> itself, given both data
  rows, writes the three rows the claim describes: one for each pair of a row and a word
  it contains (\<open>search_tsv_events\<close>).
\<close>

theorem first_data_row_skipped:
  "map (\<lambda>m. (row_word m, row_text m)) (output_tsv (final (main first_row))) =
     [(''cat'', ''A cat sat'')] \<and>
   map (\<lambda>m. (row_word m, row_text m))
     (output_tsv (final (search_tsv first_row ''talk.wav''
        ((initial first_row)\<lparr>reader := [[''0'', ''1500'', ''Concatenate the files''],
                                         [''2000'', ''3000'', ''A cat sat'']]\<rparr>)))) =
     [(''cat'', ''Concatenate the files''), (''con'', ''Concatenate the files''),
      (''cat'', ''A cat sat'')]"
  by (simp add: run_simps first_row_def)

section \<open>The scenario of one row\<close>

text \<open>The word list \<open>test\<close> and a transcript of a header and the one data row
  (1000, 2000, "this is a test"), beside a wav of five seconds.\<close>

definition scenario :: env where
  "scenario =
     \<lparr>STRINGS = [''test''], AUDIO_EXCERPTS = ''/work/audio_excerpts'',
      wav_files = [''episode.wav'' \<mapsto> silence 8000 40000],
      tsvs = [\<lparr>stem = ''episode'',
               tsv_rows = [[''start'', ''end'', ''text''],
                           [''1000'', ''2000'', ''this is a test'']]\<rparr>],
      old_excerpts = Map.empty, py_float = float_digits\<rparr>"

text \<open>Against claim C2 as stated: the run over the scenario completes with no clip and
  no metadata row, the one data row being the first of its transcript.\<close>

theorem scenario_counterexample:
  "main scenario = Done (initial scenario) \<and>
   output_tsv (initial scenario) = [] \<and>
   audio_excerpts (initial scenario) = Map.empty"
  by (simp add: run_simps scenario_def)

text \<open>
  Claim C2, as the code has it, for the row where \<open>search_tsv\<close> reads it (counter at
  0): exactly one call of the slicer, on the padded window from 0.8 s to 2.2 s; one
  clip, \<open>chunk_0.wav\<close>, of the 11200 frames of that window; and one metadata row with
  the clip path, the parent wav, the word, the text, and the times of the transcript,
  1 and 2, not those of the padded window.
\<close>

theorem scenario_row_searched:
  "completed (search_tsv scenario ''episode.wav''
      ((initial scenario)\<lparr>reader := [[''1000'', ''2000'', ''this is a test'']]\<rparr>)) \<and>
   output_tsv (final (search_tsv scenario ''episode.wav''
      ((initial scenario)\<lparr>reader := [[''1000'', ''2000'', ''this is a test'']]\<rparr>))) =
     [\<lparr>row_identifier = ''/work/audio_excerpts/chunk_0.wav'', row_parent_wav = ''episode.wav'',
       row_word = ''test'', row_start_time = 1, row_end_time = 2,
       row_text = ''this is a test''\<rparr>] \<and>
   calls (final (search_tsv scenario ''episode.wav''
      ((initial scenario)\<lparr>reader := [[''1000'', ''2000'', ''this is a test'']]\<rparr>))) =
     [(''episode.wav'', fsub 1 py_0_2, fadd 2 py_0_2, ''/work/audio_excerpts/chunk_0.wav'')] \<and>
   audio_excerpts (final (search_tsv scenario ''episode.wav''
      ((initial scenario)\<lparr>reader := [[''1000'', ''2000'', ''this is a test'']]\<rparr>))) =
     [''/work/audio_excerpts/chunk_0.wav'' \<mapsto> silence 8000 11200] \<and>
   unique_id (final (search_tsv scenario ''episode.wav''
      ((initial scenario)\<lparr>reader := [[''1000'', ''2000'', ''this is a test'']]\<rparr>))) = 1"
  by (simp add: run_simps scenario_def)

end
